theory Spec2Isabelle
  imports Main "HOL-Library.Sublist"
begin

section \<open>Python strings\<close>

text \<open>
  A Python \<open>str\<close> is a sequence of code points. It is modelled as \<open>string\<close>, every
  \<open>char\<close> standing for the code point of the same number, so the texts covered are those
  whose code points lie below 256 (the Latin-1 block; the superscript two of the area
  unit is code point \<open>0xB2\<close>). The character predicates below are the ones of Python 3
  on that block.
\<close>

definition cp :: "char \<Rightarrow> nat" where
  "cp c = of_char c"

definition is_space :: "char \<Rightarrow> bool" where
  \<comment> \<open>\<open>str.isspace\<close>, which is also what \<open>str.strip()\<close> removes and what \<open>\s\<close> matches\<close>
  "is_space c = (let n = cp c in
     (9 \<le> n \<and> n \<le> 13) \<or> (28 \<le> n \<and> n \<le> 32) \<or> n = 133 \<or> n = 160)"

definition is_digit :: "char \<Rightarrow> bool" where
  \<comment> \<open>\<open>\d\<close>: the decimal digits\<close>
  "is_digit c = (let n = cp c in 48 \<le> n \<and> n \<le> 57)"

definition is_word :: "char \<Rightarrow> bool" where
  \<comment> \<open>\<open>\w\<close>: \<open>str.isalnum\<close> or the underscore\<close>
  "is_word c = (let n = cp c in
     (48 \<le> n \<and> n \<le> 57) \<or> (65 \<le> n \<and> n \<le> 90) \<or> n = 95 \<or> (97 \<le> n \<and> n \<le> 122)
     \<or> n = 170 \<or> n = 178 \<or> n = 179 \<or> n = 181 \<or> n = 185 \<or> n = 186
     \<or> (188 \<le> n \<and> n \<le> 190) \<or> (192 \<le> n \<and> n \<le> 214) \<or> (216 \<le> n \<and> n \<le> 246)
     \<or> (248 \<le> n \<and> n \<le> 255))"

definition is_linebreak :: "char \<Rightarrow> bool" where
  \<comment> \<open>the line boundaries of \<open>str.splitlines\<close>\<close>
  "is_linebreak c = (let n = cp c in
     (10 \<le> n \<and> n \<le> 13) \<or> (28 \<le> n \<and> n \<le> 30) \<or> n = 133)"

definition lower_char :: "char \<Rightarrow> char" where
  "lower_char c = (let n = cp c in
     if (65 \<le> n \<and> n \<le> 90) \<or> (192 \<le> n \<and> n \<le> 214) \<or> (216 \<le> n \<and> n \<le> 222)
     then char_of (n + 32) else c)"

definition lower :: "string \<Rightarrow> string" where
  \<comment> \<open>\<open>str.lower()\<close>\<close>
  "lower s = map lower_char s"

definition strip :: "string \<Rightarrow> string" where
  \<comment> \<open>\<open>str.strip()\<close>\<close>
  "strip s = rev (dropWhile is_space (rev (dropWhile is_space s)))"

fun contains :: "string \<Rightarrow> string \<Rightarrow> bool" where
  \<comment> \<open>\<open>sub in s\<close>\<close>
  "contains sub [] = (sub = [])"
| "contains sub (c # cs) = (prefix sub (c # cs) \<or> contains sub cs)"

definition replace_comma :: "string \<Rightarrow> string" where
  \<comment> \<open>\<open>s.replace(",", "")\<close>\<close>
  "replace_comma s = filter (\<lambda>c. c \<noteq> CHR '','') s"

fun splitlines_acc :: "string \<Rightarrow> string \<Rightarrow> string list" where
  \<comment> \<open>\<open>str.splitlines()\<close>; the first argument is the line read so far, reversed\<close>
  "splitlines_acc acc [] = (if acc = [] then [] else [rev acc])"
| "splitlines_acc acc (c # cs) =
     (if c = CHR 0x0D \<and> cs \<noteq> [] \<and> hd cs = CHR 0x0A then rev acc # splitlines_acc [] (tl cs)
      else if is_linebreak c then rev acc # splitlines_acc [] cs
      else splitlines_acc (c # acc) cs)"

definition splitlines :: "string \<Rightarrow> string list" where
  "splitlines s = splitlines_acc [] s"

section \<open>Regular expressions\<close>

text \<open>
  The patterns of the source are written as terms of \<open>re\<close> and run by a backtracking
  matcher that lists the ways a pattern can match at the head of a text in the order
  Python's \<open>re\<close> tries them; \<open>re.search\<close> takes the first way at the leftmost position that
  has one. \<open>ignorecase\<close> and \<open>dotall\<close> are the flags \<open>re.I\<close> and \<open>re.DOTALL\<close>.
\<close>

datatype citem = CSpace | CDigit | CWord | CChar char

datatype re =
    Lit string          \<comment> \<open>literal text\<close>
  | Cls "citem list"    \<comment> \<open>\<open>\s\<close>, \<open>\d\<close>, \<open>\w\<close> or a bracket set\<close>
  | Dot                 \<comment> \<open>\<open>.\<close>\<close>
  | Eos                 \<comment> \<open>\<open>$\<close>\<close>
  | Seq re re
  | Alt re re
  | Star re             \<comment> \<open>\<open>r*\<close>, greedy\<close>
  | Plus re             \<comment> \<open>\<open>r+\<close>, greedy\<close>
  | LazyStar re         \<comment> \<open>\<open>r*?\<close>\<close>
  | Group re            \<comment> \<open>the capturing group 1\<close>

record flags =
  ignorecase :: bool
  dotall :: bool

definition char_eq :: "flags \<Rightarrow> char \<Rightarrow> char \<Rightarrow> bool" where
  "char_eq f p c = (if ignorecase f then lower_char p = lower_char c else p = c)"

fun lit_match :: "flags \<Rightarrow> string \<Rightarrow> string \<Rightarrow> bool" where
  "lit_match f [] s = True"
| "lit_match f (p # ps) [] = False"
| "lit_match f (p # ps) (c # cs) = (char_eq f p c \<and> lit_match f ps cs)"

fun citem_match :: "flags \<Rightarrow> citem \<Rightarrow> char \<Rightarrow> bool" where
  "citem_match f CSpace c = is_space c"
| "citem_match f CDigit c = is_digit c"
| "citem_match f CWord c = is_word c"
| "citem_match f (CChar p) c = char_eq f p c"

text \<open>
  A way of matching is the text left after the match and the text captured by group 1,
  if the group took part.
\<close>

type_synonym way = "string \<times> string option"

fun rmatch :: "flags \<Rightarrow> re \<Rightarrow> string \<Rightarrow> string option \<Rightarrow> way list" where
  "rmatch f (Lit p) s g = (if lit_match f p s then [(drop (length p) s, g)] else [])"
| "rmatch f (Cls items) s g =
     (case s of [] \<Rightarrow> [] | c # cs \<Rightarrow> if list_ex (\<lambda>i. citem_match f i c) items then [(cs, g)] else [])"
| "rmatch f Dot s g =
     (case s of [] \<Rightarrow> [] | c # cs \<Rightarrow> if dotall f \<or> c \<noteq> CHR 0x0A then [(cs, g)] else [])"
| "rmatch f Eos s g = (if s = [] \<or> s = [CHR 0x0A] then [(s, g)] else [])"
| "rmatch f (Seq a b) s g = concat (map (\<lambda>w. rmatch f b (fst w) (snd w)) (rmatch f a s g))"
| "rmatch f (Alt a b) s g = rmatch f a s g @ rmatch f b s g"
| "rmatch f (Star a) s g =
     concat (map (\<lambda>w. if length (fst w) < length s then rmatch f (Star a) (fst w) (snd w) else [])
                 (rmatch f a s g)) @ [(s, g)]"
| "rmatch f (Plus a) s g =
     concat (map (\<lambda>w. if length (fst w) < length s then rmatch f (Star a) (fst w) (snd w) else [w])
                 (rmatch f a s g))"
| "rmatch f (LazyStar a) s g =
     (s, g) # concat (map (\<lambda>w. if length (fst w) < length s then rmatch f (LazyStar a) (fst w) (snd w) else [])
                 (rmatch f a s g))"
| "rmatch f (Group a) s g =
     map (\<lambda>w. (fst w, Some (take (length s - length (fst w)) s))) (rmatch f a s g)"

fun re_search :: "flags \<Rightarrow> re \<Rightarrow> string \<Rightarrow> string option option" where
  \<comment> \<open>\<open>re.search\<close>: \<open>None\<close> when there is no match, otherwise \<open>group(1)\<close> of the match\<close>
  "re_search f r [] = (case rmatch f r [] None of [] \<Rightarrow> None | w # _ \<Rightarrow> Some (snd w))"
| "re_search f r (c # cs) =
     (case rmatch f r (c # cs) None of [] \<Rightarrow> re_search f r cs | w # _ \<Rightarrow> Some (snd w))"

definition group1 :: "string option option \<Rightarrow> string option" where
  \<comment> \<open>\<open>m.group(1) if m else None\<close>\<close>
  "group1 m = (case m of None \<Rightarrow> None | Some g \<Rightarrow> g)"

section \<open>The property scraper\<close>

datatype exn = Exception string

record PropertyData =
  address :: string
  lot_plan :: "string option"
  zone :: "string option"
  residential_density :: "string option"
  area_sqm :: "string option"
  building_height :: "string option"
  overlays :: "string list option"

definition truthy :: "string option \<Rightarrow> bool" where
  \<comment> \<open>Python's truth value of an optional string: \<open>None\<close> and \<open>""\<close> are false\<close>
  "truthy v = (v \<noteq> None \<and> v \<noteq> Some [])"

definition re_I :: flags where
  "re_I = \<lparr>ignorecase = True, dotall = False\<rparr>"

definition re_I_DOTALL :: flags where
  "re_I_DOTALL = \<lparr>ignorecase = True, dotall = True\<rparr>"

definition area_re :: re where
  \<comment> \<open>\<open>Plan\s*Area\s*([\d.,]+)\s*m[\<twosuperior>2]\<close>\<close>
  "area_re =
     Seq (Lit ''Plan'') (Seq (Star (Cls [CSpace])) (Seq (Lit ''Area'') (Seq (Star (Cls [CSpace]))
       (Seq (Group (Plus (Cls [CDigit, CChar CHR ''.'', CChar CHR '',''])))
         (Seq (Star (Cls [CSpace])) (Seq (Lit ''m'') (Cls [CChar (CHR 0xB2), CChar CHR ''2''])))))))"

definition lotplan_re :: re where
  \<comment> \<open>\<open>Lot/Plan\s+(\w+)\<close>\<close>
  "lotplan_re = Seq (Lit ''Lot/Plan'') (Seq (Plus (Cls [CSpace])) (Group (Plus (Cls [CWord]))))"

definition zone_re :: re where
  \<comment> \<open>\<open>(Low density residential|Low-medium density residential|Medium density residential|High density residential)\<close>\<close>
  "zone_re =
     Group (Alt (Lit ''Low density residential'') (Alt (Lit ''Low-medium density residential'')
       (Alt (Lit ''Medium density residential'') (Lit ''High density residential''))))"

definition density_re :: re where
  \<comment> \<open>\<open>Residential\s+density[:\s]+(RD\d+)\<close>\<close>
  "density_re =
     Seq (Lit ''Residential'') (Seq (Plus (Cls [CSpace])) (Seq (Lit ''density'')
       (Seq (Plus (Cls [CChar CHR '':'', CSpace])) (Group (Seq (Lit ''RD'') (Plus (Cls [CDigit])))))))"

definition end_anchor_re :: re where
  \<comment> \<open>\<open>(?:LGIP|Local Government|Plan Zone|$)\<close>\<close>
  "end_anchor_re = Alt (Lit ''LGIP'') (Alt (Lit ''Local Government'') (Alt (Lit ''Plan Zone'') Eos))"

definition overlay_re :: re where
  \<comment> \<open>\<open>Overlays(.*?)(?:LGIP|Local Government|Plan Zone|$)\<close>\<close>
  "overlay_re = Seq (Lit ''Overlays'') (Seq (Group (LazyStar Dot)) end_anchor_re)"

subsection \<open>\<open>extract_area_and_lotplan\<close>\<close>

text \<open>
  The page gives the texts of the \<open>div\<close>s of the property detail card; reading one of them
  may raise, and so may locating or counting them.
\<close>

definition area_update :: "string \<Rightarrow> string option \<Rightarrow> exn + string option" where
  \<comment> \<open>\<open>group(1)\<close> is \<open>None\<close> when the group took no part, and \<open>None.replace\<close> raises\<close>
  "area_update txt area =
     (case re_search re_I area_re txt of
        None \<Rightarrow> Inr area
      | Some g \<Rightarrow>
          if truthy area then Inr area
          else (case g of
                  None \<Rightarrow> Inl (Exception ''AttributeError'')
                | Some v \<Rightarrow> Inr (Some (replace_comma v))))"

definition lotplan_update :: "string \<Rightarrow> string option \<Rightarrow> string option" where
  "lotplan_update txt lotplan =
     (case re_search re_I lotplan_re txt of
        None \<Rightarrow> lotplan
      | Some g \<Rightarrow> if truthy lotplan then lotplan else g)"

fun divs_loop :: "(exn + string) list \<Rightarrow> string option \<Rightarrow> string option
    \<Rightarrow> string option \<times> string option" where
  "divs_loop [] area lotplan = (area, lotplan)"
| "divs_loop (d # ds) area lotplan =
     (case d of
        Inl e \<Rightarrow> divs_loop ds area lotplan
      | Inr raw \<Rightarrow>
          (let txt = strip raw in
           case area_update txt area of
             Inl e \<Rightarrow> (area, lotplan)
           | Inr area' \<Rightarrow> divs_loop ds area' (lotplan_update txt lotplan)))"

definition extract_area_and_lotplan :: "exn + (exn + string) list \<Rightarrow> string option \<times> string option" where
  "extract_area_and_lotplan detail_divs =
     (case detail_divs of Inl e \<Rightarrow> (None, None) | Inr ds \<Rightarrow> divs_loop ds None None)"

subsection \<open>\<open>extract_zone_density_overlays\<close>\<close>

definition exclude :: "string list" where
  "exclude = [''view section'', ''show on map'', ''overlays'']"

definition excluded :: "string \<Rightarrow> bool" where
  \<comment> \<open>\<open>any(ex in ln.lower() for ex in exclude)\<close>\<close>
  "excluded ln = list_ex (\<lambda>ex. contains ex (lower ln)) exclude"

fun overlays_loop :: "string list \<Rightarrow> string list \<Rightarrow> string list" where
  "overlays_loop [] ovs = ovs"
| "overlays_loop (ln # lns) ovs =
     (if excluded ln then overlays_loop lns ovs
      else if length ln > 5 \<and> ln \<notin> set ovs then overlays_loop lns (ovs @ [ln])
      else overlays_loop lns ovs)"

definition stripped_lines :: "string \<Rightarrow> string list" where
  \<comment> \<open>\<open>[ln.strip() for ln in overlay_text.splitlines() if ln.strip()]\<close>\<close>
  "stripped_lines t = map strip (filter (\<lambda>ln. strip ln \<noteq> []) (splitlines t))"

definition overlay_section :: "string \<Rightarrow> string option option" where
  "overlay_section panel_text = re_search re_I_DOTALL overlay_re panel_text"

definition extract_overlays :: "string \<Rightarrow> string list" where
  \<comment> \<open>lines 111 to 124; group 1 takes part in every match of the overlay pattern\<close>
  "extract_overlays panel_text =
     (case overlay_section panel_text of
        None \<Rightarrow> []
      | Some g \<Rightarrow> (case g of None \<Rightarrow> [] | Some overlay_text \<Rightarrow> overlays_loop (stripped_lines overlay_text) []))"

definition extract_zone :: "string \<Rightarrow> string option" where
  "extract_zone panel_text = group1 (re_search re_I zone_re panel_text)"

definition extract_density :: "string \<Rightarrow> string option" where
  "extract_density panel_text = group1 (re_search re_I density_re panel_text)"

definition extract_zone_density_overlays :: "string \<Rightarrow> string option \<times> string option \<times> string list" where
  "extract_zone_density_overlays panel_text =
     (extract_zone panel_text, extract_density panel_text, extract_overlays panel_text)"

subsection \<open>\<open>scrape_left_panel_text\<close>\<close>

text \<open>
  The browser page is the environment of the scraper: each field is what the page
  answers to one call (or to the calls of the source lines named), \<open>Inl\<close> an exception
  raised by the call. The \<open>print\<close> calls are left out.
\<close>

record gc_page =
  launch_browser :: "exn + unit"              \<comment> \<open>lines 162 to 164\<close>
  goto_cityplan :: "exn + unit"               \<comment> \<open>lines 168, 169\<close>
  search_and_select :: "string \<Rightarrow> exn + unit"   \<comment> \<open>lines 172 to 181, with the query filled in\<close>
  detail_divs :: "exn + (exn + string) list"  \<comment> \<open>lines 22 to 24 and the \<open>inner_text\<close> of each \<open>div\<close>\<close>
  wait_for_zone :: "exn + unit"               \<comment> \<open>lines 54, 55\<close>
  selector_text :: "string \<Rightarrow> exn + string"     \<comment> \<open>\<open>page.locator(selector).first.inner_text(timeout=2000)\<close>\<close>
  body_text :: "nat \<Rightarrow> exn + string"            \<comment> \<open>\<open>page.locator("body").inner_text()\<close>, by the number of earlier reads\<close>
  enable_height :: "exn + bool"               \<comment> \<open>lines 132 to 141: \<open>Inr True\<close> when the layer was found and clicked\<close>
  map_screenshot :: "exn + unit"              \<comment> \<open>line 151\<close>
  inspection_wait :: "exn + unit"             \<comment> \<open>line 217\<close>
  error_screenshot :: "exn + unit"            \<comment> \<open>line 223\<close>
  close_browser :: "exn + unit"               \<comment> \<open>line 228\<close>

definition selectors :: "string list" where
  "selectors = [''.esri-feature__content-node'', ''.esri-feature'', ''.esri-widget'',
     ''[class*='property-info']'', ''[class*='panel']'']"

definition attempted :: "string \<Rightarrow> string list \<times> 'a \<Rightarrow> string list \<times> 'a" where
  "attempted sel r = (sel # fst r, snd r)"

definition panel_found :: "string \<Rightarrow> bool" where
  \<comment> \<open>\<open>"zone" in text.lower() or "overlay" in text.lower()\<close>\<close>
  "panel_found text = (contains ''zone'' (lower text) \<or> contains ''overlay'' (lower text))"

text \<open>
  The selector loop returns the selectors it has attempted, in the order of the attempts,
  beside its result; the attempts are not a value of the source, they record its calls.
\<close>

fun panel_loop :: "(string \<Rightarrow> exn + string) \<Rightarrow> string list \<Rightarrow> string list \<times> string option" where
  "panel_loop inner [] = ([], None)"
| "panel_loop inner (sel # sels) =
     (case inner sel of
        Inl e \<Rightarrow> attempted sel (panel_loop inner sels)
      | Inr text \<Rightarrow>
          if panel_found text then ([sel], Some text)
          else attempted sel (panel_loop inner sels))"

definition scrape_left_panel_text :: "gc_page \<Rightarrow> exn + string" where
  "scrape_left_panel_text pg =
     (case wait_for_zone pg of
        Inl e \<Rightarrow> body_text pg 0
      | Inr u \<Rightarrow>
          (case snd (panel_loop (selector_text pg) selectors) of
             Some text \<Rightarrow> Inr text
           | None \<Rightarrow>
               (case body_text pg 0 of
                  Inr text \<Rightarrow> Inr text
                | Inl e \<Rightarrow> body_text pg 1)))"

subsection \<open>\<open>scrape_goldcoast_property\<close>\<close>

definition enable_building_height_layer :: "gc_page \<Rightarrow> bool" where
  "enable_building_height_layer pg = (case enable_height pg of Inl e \<Rightarrow> False | Inr b \<Rightarrow> b)"

definition screenshot_map :: "gc_page \<Rightarrow> string option" where
  "screenshot_map pg = (case map_screenshot pg of Inl e \<Rightarrow> None | Inr u \<Rightarrow> Some ''map_height.png'')"

definition new_result :: "string \<Rightarrow> PropertyData" where
  \<comment> \<open>\<open>PropertyData(address=query, overlays=[])\<close>\<close>
  "new_result query = \<lparr>address = query, lot_plan = None, zone = None, residential_density = None,
     area_sqm = None, building_height = None, overlays = Some []\<rparr>"

definition store_area_lotplan :: "PropertyData \<Rightarrow> string option \<times> string option \<Rightarrow> PropertyData" where
  \<comment> \<open>line 184\<close>
  "store_area_lotplan result al = result\<lparr>area_sqm := fst al, lot_plan := snd al\<rparr>"

definition store_zone_density_overlays ::
    "PropertyData \<Rightarrow> string option \<times> string option \<times> string list \<Rightarrow> PropertyData" where
  \<comment> \<open>lines 188, 189\<close>
  "store_zone_density_overlays result zdo =
     result\<lparr>zone := fst zdo, residential_density := fst (snd zdo), overlays := Some (snd (snd zdo))\<rparr>"

definition capture_building_height :: "gc_page \<Rightarrow> PropertyData \<Rightarrow> PropertyData" where
  \<comment> \<open>lines 192 to 195\<close>
  "capture_building_height pg result =
     (if enable_building_height_layer pg then
        (case screenshot_map pg of
           Some screenshot_path \<Rightarrow> result\<lparr>building_height := Some ''(see screenshot)''\<rparr>
         | None \<Rightarrow> result)
      else result)"

definition and_then :: "exn + 'a \<Rightarrow> ('a \<Rightarrow> exn + 'b) \<Rightarrow> exn + 'b" where
  \<comment> \<open>one statement after another: an exception of the first skips the rest\<close>
  "and_then m k = (case m of Inl e \<Rightarrow> Inl e | Inr x \<Rightarrow> k x)"

definition scrape_steps :: "gc_page \<Rightarrow> string \<Rightarrow> exn + PropertyData" where
  \<comment> \<open>the body of the \<open>try\<close>, lines 167 to 219\<close>
  "scrape_steps pg query =
     and_then (goto_cityplan pg) (\<lambda>u.
     and_then (search_and_select pg query) (\<lambda>u.
     let result = store_area_lotplan (new_result query) (extract_area_and_lotplan (detail_divs pg)) in
     and_then (scrape_left_panel_text pg) (\<lambda>panel_text.
     let result = store_zone_density_overlays result (extract_zone_density_overlays panel_text);
         result = capture_building_height pg result in
     and_then (inspection_wait pg) (\<lambda>u. Inr result))))"

definition on_error :: "gc_page \<Rightarrow> exn \<Rightarrow> exn + PropertyData" where
  \<comment> \<open>the \<open>except\<close> clause, lines 221 to 225: the screenshot, then \<open>raise\<close>\<close>
  "on_error pg e = (case error_screenshot pg of Inl e' \<Rightarrow> Inl e' | Inr u \<Rightarrow> Inl e)"

definition scrape_goldcoast_property :: "gc_page \<Rightarrow> string \<Rightarrow> exn + PropertyData" where
  "scrape_goldcoast_property pg query =
     and_then (launch_browser pg) (\<lambda>u.
     let outcome = (case scrape_steps pg query of Inl e \<Rightarrow> on_error pg e | Inr result \<Rightarrow> Inr result) in
     and_then (close_browser pg) (\<lambda>u. outcome))"

section \<open>The decision notice downloader\<close>

subsection \<open>Rows of the documents table\<close>

text \<open>
  An element handle is what its calls answer: a row gives its text, the texts of its
  \<open>td\<close> cells and the link of its first cell (\<open>query_selector('td:first-child a')\<close>, which
  is \<open>None\<close> when there is no such link); a link gives its text. Each call may raise.
\<close>

record link_handle =
  link_id :: nat
  link_inner_text :: "exn + string"

record row_handle =
  row_inner_text :: "exn + string"
  row_cells :: "exn + (exn + string) list"
  row_link :: "exn + link_handle option"

record document =
  link :: string
  name :: string

definition document_keywords :: "string list" where
  \<comment> \<open>the keyword list of line 270\<close>
  "document_keywords = [''Form'', ''Plan'', ''Report'', ''Notice'', ''Decision'', ''Letter'']"

definition document_of_row :: "row_handle \<Rightarrow> exn + document option" where
  \<comment> \<open>the body of the \<open>try\<close> of lines 267 to 280: the document appended, if any\<close>
  "document_of_row row =
     and_then (row_inner_text row) (\<lambda>text.
       if list_ex (\<lambda>keyword. contains keyword text) document_keywords then
         and_then (row_cells row) (\<lambda>cells.
           if length cells \<ge> 2 then
             and_then (cells ! 0) (\<lambda>c0.
             and_then (cells ! 1) (\<lambda>c1.
               let link_text = strip c0; name_text = strip c1 in
               if name_text \<noteq> [] then Inr (Some \<lparr>link = link_text, name = name_text\<rparr>)
               else Inr None))
           else Inr None)
       else Inr None)"

fun documents_loop :: "row_handle list \<Rightarrow> document list \<Rightarrow> document list" where
  \<comment> \<open>lines 265 to 282; \<open>except: continue\<close> drops the row\<close>
  "documents_loop [] documents_found = documents_found"
| "documents_loop (row # rows) documents_found =
     (case document_of_row row of
        Inl e \<Rightarrow> documents_loop rows documents_found
      | Inr None \<Rightarrow> documents_loop rows documents_found
      | Inr (Some doc) \<Rightarrow> documents_loop rows (documents_found @ [doc]))"

definition marker :: string where
  "marker = ''Signed Decision Notice''"

fun notice_loop :: "row_handle list \<Rightarrow> link_handle option \<Rightarrow> link_handle option" where
  \<comment> \<open>lines 289 to 302; the second argument is \<open>decision_notice_link\<close>, which is
      assigned before the link's text is read\<close>
  "notice_loop [] decision_notice_link = decision_notice_link"
| "notice_loop (row # rows) decision_notice_link =
     (case row_inner_text row of
        Inl e \<Rightarrow> notice_loop rows decision_notice_link
      | Inr text \<Rightarrow>
          if contains marker text then
            (case row_link row of
               Inl e \<Rightarrow> notice_loop rows decision_notice_link
             | Inr None \<Rightarrow> notice_loop rows decision_notice_link
             | Inr (Some link_cell) \<Rightarrow>
                 (case link_inner_text link_cell of
                    Inl e \<Rightarrow> notice_loop rows (Some link_cell)
                  | Inr link_text \<Rightarrow> Some link_cell))
          else notice_loop rows decision_notice_link)"

subsection \<open>\<open>download_decision_notice\<close>\<close>

typedecl float
  \<comment> \<open>Python's floating-point numbers, of which the model only passes one on\<close>

record download_result =
  success :: bool
  error :: "string option"
  file_path :: "string option"
  documents_available :: "string list option"
  filename :: "string option"
  application_number :: "string option"
  file_size_kb :: "float option"

definition failure :: "string \<Rightarrow> download_result" where
  \<comment> \<open>\<open>{'success': False, 'error': ..., 'file_path': None}\<close>\<close>
  "failure msg = \<lparr>success = False, error = Some msg, file_path = None, documents_available = None,
     filename = None, application_number = None, file_size_kb = None\<rparr>"

datatype summary_outcome = OnDetailPage | NoClickableLink | NoResults | TableNotFound

text \<open>
  The page of the downloader. The steps that no claim is about are one field each, for
  the source lines named; the size of the saved file in KB is computed in floating point
  (lines 334 and 352) and taken from the page as it is.
\<close>

record pd_page =
  pd_launch :: "exn + unit"                         \<comment> \<open>lines 18 to 22\<close>
  open_search_form :: "exn + unit"                  \<comment> \<open>lines 30 to 51\<close>
  wait_for_selector :: "string \<Rightarrow> exn + unit"        \<comment> \<open>line 70\<close>
  fill :: "string \<Rightarrow> string \<Rightarrow> exn + unit"            \<comment> \<open>lines 71 and 94: \<open>page.fill(selector, value)\<close>\<close>
  query_text_inputs :: "exn + unit"                 \<comment> \<open>line 85\<close>
  log_text_inputs :: "exn + unit"                   \<comment> \<open>lines 88 to 91\<close>
  submit_search :: "exn + unit"                     \<comment> \<open>lines 99 to 101\<close>
  summary_page :: "bool \<Rightarrow> exn + summary_outcome"    \<comment> \<open>lines 109 to 165, by \<open>debug\<close>\<close>
  verify_and_locate :: "bool \<Rightarrow> exn + unit"         \<comment> \<open>lines 172 to 249, by \<open>debug\<close>\<close>
  all_rows :: "exn + row_handle list"               \<comment> \<open>line 257\<close>
  download :: "link_handle \<Rightarrow> string \<Rightarrow> exn + float"  \<comment> \<open>lines 322 to 334: the click, the save and the size\<close>
  error_capture :: "exn + unit"                     \<comment> \<open>lines 362 to 365\<close>
  pd_close :: "exn + unit"                          \<comment> \<open>\<open>browser.close()\<close>\<close>

definition selectors_to_try :: "string list" where
  "selectors_to_try =
     [''#ctl00_MainBodyContent_mGeneralEnquirySearchControl_mTabControl_ctl00_mApplicationNumberTextBox'',
      ''input[type=\"text\"][id*=\"ApplicationNumber\"]'',
      ''#ctl00_MainBodyContent_mGeneralEnquirySearchControl_mTabControl_ctl00_mLicenceApplicationNumberTextBox'']"

fun fill_loop :: "pd_page \<Rightarrow> string \<Rightarrow> string list \<Rightarrow> string list \<times> bool" where
  \<comment> \<open>lines 67 to 77: the selectors attempted, and \<open>input_filled\<close>\<close>
  "fill_loop pg app_number [] = ([], False)"
| "fill_loop pg app_number (sel # sels) =
     (case and_then (wait_for_selector pg sel) (\<lambda>u. fill pg sel app_number) of
        Inl e \<Rightarrow> attempted sel (fill_loop pg app_number sels)
      | Inr u \<Rightarrow> ([sel], True))"

definition enter_application_number :: "pd_page \<Rightarrow> string \<Rightarrow> bool \<Rightarrow> exn + unit" where
  \<comment> \<open>lines 61 to 96\<close>
  "enter_application_number pg app_number debug =
     (if snd (fill_loop pg app_number selectors_to_try) then Inr ()
      else
        and_then (query_text_inputs pg) (\<lambda>u.
        and_then (if debug then log_text_inputs pg else Inr ()) (\<lambda>u.
        fill pg ''input[type=\"text\"]'' app_number)))"

definition replace_slash :: "string \<Rightarrow> string" where
  \<comment> \<open>\<open>app_number.replace('/', '_')\<close>\<close>
  "replace_slash s = map (\<lambda>c. if c = CHR ''/'' then CHR ''_'' else c) s"

definition path_join :: "string \<Rightarrow> string \<Rightarrow> string" where
  \<comment> \<open>\<open>os.path.join\<close> of a directory and a name that does not start with a slash\<close>
  "path_join d f = (if d = [] \<or> last d = CHR ''/'' then d @ f else d @ ''/'' @ f)"

definition no_match :: "document list \<Rightarrow> download_result" where
  \<comment> \<open>lines 309 to 314\<close>
  "no_match documents_found =
     (failure ''Signed Decision Notice not found'')\<lparr>documents_available := Some (map name documents_found)\<rparr>"

definition find_and_download :: "pd_page \<Rightarrow> string \<Rightarrow> string \<Rightarrow> row_handle list \<Rightarrow> exn + download_result" where
  \<comment> \<open>lines 265 to 353\<close>
  "find_and_download pg app_number output_dir rows =
     (let documents_found = documents_loop rows [] in
      case notice_loop rows None of
        None \<Rightarrow> and_then (pd_close pg) (\<lambda>u. Inr (no_match documents_found))
      | Some decision_notice_link \<Rightarrow>
          (let fname = ''DA_'' @ replace_slash app_number @ ''_Decision_Notice.pdf'';
               fpath = path_join output_dir fname in
           and_then (download pg decision_notice_link fpath) (\<lambda>size_kb.
           and_then (pd_close pg) (\<lambda>u.
             Inr \<lparr>success = True, error = None, file_path = Some fpath,
                  documents_available = None, filename = Some fname,
                  application_number = Some app_number, file_size_kb = Some size_kb\<rparr>))))"

definition after_summary :: "pd_page \<Rightarrow> string \<Rightarrow> string \<Rightarrow> bool \<Rightarrow> summary_outcome \<Rightarrow> exn + download_result" where
  \<comment> \<open>the early returns of lines 153, 158 and 165, or lines 167 to 353\<close>
  "after_summary pg app_number output_dir debug outcome =
     (case outcome of
        NoClickableLink \<Rightarrow> Inr (failure ''No clickable link found'')
      | NoResults \<Rightarrow> Inr (failure ''No results found'')
      | TableNotFound \<Rightarrow> Inr (failure ''Results table not found'')
      | OnDetailPage \<Rightarrow>
          and_then (verify_and_locate pg debug) (\<lambda>u.
          and_then (all_rows pg) (\<lambda>rows.
            find_and_download pg app_number output_dir rows)))"

definition try_body :: "pd_page \<Rightarrow> string \<Rightarrow> string \<Rightarrow> bool \<Rightarrow> exn + download_result" where
  \<comment> \<open>lines 24 to 353\<close>
  "try_body pg app_number output_dir debug =
     and_then (open_search_form pg) (\<lambda>u.
     and_then (enter_application_number pg app_number debug) (\<lambda>u.
     and_then (submit_search pg) (\<lambda>u.
     and_then (summary_page pg debug) (\<lambda>outcome.
       after_summary pg app_number output_dir debug outcome))))"

definition capture_on_error :: "pd_page \<Rightarrow> unit" where
  \<comment> \<open>lines 361 to 367: \<open>try: ... except: pass\<close>\<close>
  "capture_on_error pg = (case error_capture pg of Inl e \<Rightarrow> () | Inr u \<Rightarrow> ())"

definition str_exn :: "exn \<Rightarrow> string" where
  "str_exn e = (case e of Exception msg \<Rightarrow> msg)"

definition pd_on_error :: "pd_page \<Rightarrow> bool \<Rightarrow> exn \<Rightarrow> exn + download_result" where
  \<comment> \<open>the \<open>except\<close> clause, lines 355 to 374\<close>
  "pd_on_error pg debug e =
     (let u = (if debug then capture_on_error pg else ()) in
      and_then (pd_close pg) (\<lambda>u. Inr (failure (str_exn e))))"

definition download_decision_notice :: "pd_page \<Rightarrow> string \<Rightarrow> string \<Rightarrow> bool \<Rightarrow> exn + download_result" where
  "download_decision_notice pg app_number output_dir debug =
     and_then (pd_launch pg) (\<lambda>u.
       case try_body pg app_number output_dir debug of
         Inl e \<Rightarrow> pd_on_error pg debug e
       | Inr r \<Rightarrow> Inr r)"

section \<open>The components as the specification words them\<close>

text \<open>
  The four zoning categories, and the Section Scanner of the specification: the text
  after the first match of the start anchor up to the first following match of an end
  anchor, or to the end of the blob; anchors are matched without regard to case.
\<close>

definition zone_phrases :: "string list" where
  "zone_phrases = [''Low density residential'', ''Low-medium density residential'',
     ''Medium density residential'', ''High density residential'']"

definition end_anchors :: "string list" where
  "end_anchors = [''LGIP'', ''Local Government'', ''Plan Zone'']"

definition anchor_here :: "string \<Rightarrow> string \<Rightarrow> bool" where
  "anchor_here a s = prefix (lower a) (lower s)"

text \<open>
  A phrase occurs at a place of the text when the text from there on starts with it, up
  to letter case. A text holds only the phrase \<open>p\<close> when \<open>p\<close> occurs in it and every
  occurrence of another of the four phrases lies inside an occurrence of \<open>p\<close> (as
  \<open>Medium density residential\<close> does inside \<open>Low-medium density residential\<close>).
  \<open>first_zone\<close> is the text at the leftmost place where one of the phrases occurs.
\<close>

definition phrase_at :: "string \<Rightarrow> string \<Rightarrow> nat \<Rightarrow> bool" where
  "phrase_at q blob j = anchor_here q (drop j blob)"

definition inside_occurrence :: "string \<Rightarrow> string \<Rightarrow> string \<Rightarrow> nat \<Rightarrow> bool" where
  "inside_occurrence p q blob j =
     list_ex (\<lambda>i. phrase_at p blob i \<and> j + length q \<le> i + length p) [0..<Suc j]"

definition only_phrase :: "string \<Rightarrow> string \<Rightarrow> bool" where
  "only_phrase p blob =
     (contains (lower p) (lower blob)
      \<and> list_all (\<lambda>q. q = p \<or>
           list_all (\<lambda>j. phrase_at q blob j \<longrightarrow> inside_occurrence p q blob j) [0..<Suc (length blob)])
         zone_phrases)"

fun first_zone :: "string \<Rightarrow> string option" where
  "first_zone [] =
     (case find (\<lambda>q. anchor_here q []) zone_phrases of
        None \<Rightarrow> None | Some q \<Rightarrow> Some (take (length q) []))"
| "first_zone (c # cs) =
     (case find (\<lambda>q. anchor_here q (c # cs)) zone_phrases of
        None \<Rightarrow> first_zone cs | Some q \<Rightarrow> Some (take (length q) (c # cs)))"

fun after_anchor :: "string \<Rightarrow> string \<Rightarrow> string option" where
  "after_anchor a [] = (if a = [] then Some [] else None)"
| "after_anchor a (c # cs) =
     (if anchor_here a (c # cs) then Some (drop (length a) (c # cs)) else after_anchor a cs)"

fun before_end_anchor :: "string list \<Rightarrow> string \<Rightarrow> string" where
  "before_end_anchor ends [] = []"
| "before_end_anchor ends (c # cs) =
     (if list_ex (\<lambda>e. anchor_here e (c # cs)) ends then [] else c # before_end_anchor ends cs)"

definition isolated_section :: "string \<Rightarrow> string option" where
  "isolated_section blob = map_option (before_end_anchor end_anchors) (after_anchor ''Overlays'' blob)"

fun first_seen :: "'a list \<Rightarrow> 'a list" where
  \<comment> \<open>duplicates dropped, the first occurrence of each element kept in place\<close>
  "first_seen [] = []"
| "first_seen (x # xs) = x # filter (\<lambda>y. y \<noteq> x) (first_seen xs)"

definition resolves_panel :: "(string \<Rightarrow> exn + string) \<Rightarrow> string \<Rightarrow> bool" where
  \<comment> \<open>a selector resolves for the scraper when its text is read and holds panel content\<close>
  "resolves_panel inner sel = (case inner sel of Inl e \<Rightarrow> False | Inr text \<Rightarrow> panel_found text)"

definition resolves_input :: "pd_page \<Rightarrow> string \<Rightarrow> string \<Rightarrow> bool" where
  \<comment> \<open>a selector resolves for the downloader when the input is found and filled\<close>
  "resolves_input pg app_number sel =
     (case and_then (wait_for_selector pg sel) (\<lambda>u. fill pg sel app_number) of
        Inl e \<Rightarrow> False | Inr u \<Rightarrow> True)"

definition has_marker :: "row_handle \<Rightarrow> bool" where
  \<comment> \<open>the row's text is read and holds the marker phrase\<close>
  "has_marker row = (case row_inner_text row of Inl e \<Rightarrow> False | Inr text \<Rightarrow> contains marker text)"

definition has_link :: "row_handle \<Rightarrow> bool" where
  \<comment> \<open>the row's first cell holds a link\<close>
  "has_link row = (case row_link row of Inl e \<Rightarrow> False | Inr None \<Rightarrow> False | Inr (Some l) \<Rightarrow> True)"

definition eligible :: "row_handle \<Rightarrow> bool" where
  "eligible row = (has_marker row \<and> has_link row)"

definition listed_document :: "row_handle \<Rightarrow> document option" where
  \<comment> \<open>the document a row adds to the list of documents found, if it adds one\<close>
  "listed_document row = (case document_of_row row of Inl e \<Rightarrow> None | Inr d \<Rightarrow> d)"

text \<open>
  What the overlay pattern captures, told without the matcher: the lazy group stops at
  the first place where an end anchor matches, or at the end of the text, or before a
  last newline (the three places where \<open>$\<close> matches).
\<close>

definition ends_here :: "string \<Rightarrow> bool" where
  "ends_here s = (list_ex (\<lambda>e. anchor_here e s) end_anchors \<or> s = [] \<or> s = [CHR 0x0A])"

fun section_end :: "string \<Rightarrow> string" where
  "section_end [] = []"
| "section_end (c # cs) = (if ends_here (c # cs) then [] else c # section_end cs)"

fun tails :: "'a list \<Rightarrow> 'a list list" where
  "tails [] = [[]]"
| "tails (c # cs) = (c # cs) # tails cs"

section \<open>Example pages\<close>

text \<open>
  Pages and rows on which the theorems below are instantiated. \<open>slow_page\<close> is a city
  plan page whose zone text never shows up within the wait and none of whose panel
  selectors can be read; \<open>failing_page\<close> cannot be loaded, and cannot be captured
  either; on \<open>unreadable_page\<close> the body cannot be read.
\<close>

definition slow_page :: gc_page where
  "slow_page = \<lparr>
     launch_browser = Inr (),
     goto_cityplan = Inr (),
     search_and_select = (\<lambda>query. Inr ()),
     detail_divs = Inr [Inr (''Plan Area 1,234.5 m'' @ [CHR 0xB2]), Inl (Exception ''Timeout 1000ms exceeded''),
       Inr ''Lot/Plan 4GTP446''],
     wait_for_zone = Inl (Exception ''Timeout 10000ms exceeded''),
     selector_text = (\<lambda>selector. Inl (Exception ''Timeout 2000ms exceeded'')),
     body_text = (\<lambda>n. Inr ''Zone\<newline>Medium density residential\<newline>Overlays\<newline>Flood overlay\<newline>LGIP''),
     enable_height = Inr False,
     map_screenshot = Inr (),
     inspection_wait = Inr (),
     error_screenshot = Inr (),
     close_browser = Inr ()\<rparr>"

definition widget_page :: gc_page where
  \<comment> \<open>only the third panel selector gives the panel\<close>
  "widget_page = slow_page\<lparr>
     wait_for_zone := Inr (),
     selector_text := (\<lambda>selector.
       if selector = ''.esri-widget'' then Inr ''Zone\<newline>High density residential''
       else if selector = ''.esri-feature'' then Inr ''Search''
       else Inl (Exception ''Timeout 2000ms exceeded''))\<rparr>"

definition failing_page :: gc_page where
  "failing_page = slow_page\<lparr>
     goto_cityplan := Inl (Exception ''Timeout 30000ms exceeded''),
     error_screenshot := Inl (Exception ''Target page, context or browser has been closed'')\<rparr>"

definition unreadable_page :: gc_page where
  \<comment> \<open>the zone text never shows up, and the page body cannot be read either\<close>
  "unreadable_page = slow_page\<lparr>
     body_text := (\<lambda>n. Inl (Exception ''Target page, context or browser has been closed''))\<rparr>"

definition document_row :: "nat \<Rightarrow> string \<Rightarrow> string \<Rightarrow> row_handle" where
  \<comment> \<open>a row of the documents table: a link in the first cell, the name in the second\<close>
  "document_row n link_text name_text = \<lparr>
     row_inner_text = Inr (link_text @ [CHR 0x09] @ name_text),
     row_cells = Inr [Inr link_text, Inr name_text],
     row_link = Inr (Some \<lparr>link_id = n, link_inner_text = Inr link_text\<rparr>)\<rparr>"

definition plain_row :: "string list \<Rightarrow> row_handle" where
  \<comment> \<open>a row without a link, of the given cells\<close>
  "plain_row cells = \<lparr>
     row_inner_text = Inr (concat (map (\<lambda>c. c @ [CHR 0x09]) cells)),
     row_cells = Inr (map Inr cells),
     row_link = Inr None\<rparr>"

definition notice_rows :: "row_handle list" where
  "notice_rows = [document_row 1 ''D1'' ''Plan Form'', document_row 2 ''D2'' ''Signed Decision Notice'',
     document_row 3 ''D3'' ''Signed Decision Notice (draft)'']"

definition status_rows :: "row_handle list" where
  \<comment> \<open>a row of the details table that names the notice, then the draft's document row\<close>
  "status_rows = [plain_row [''Status'', ''Signed Decision Notice issued''],
     document_row 3 ''D3'' ''Signed Decision Notice (draft)'']"

definition other_rows :: "row_handle list" where
  "other_rows = [document_row 1 ''D1'' ''Plan Form'', document_row 2 ''D2'' ''Site photo'',
     plain_row [''Application number'', ''MIN/2024/216'']]"

definition registry_page :: "row_handle list \<Rightarrow> pd_page" where
  \<comment> \<open>a registry page on which only the third input selector is found\<close>
  "registry_page rows = \<lparr>
     pd_launch = Inr (),
     open_search_form = Inr (),
     wait_for_selector = (\<lambda>selector.
       if selector = ''#ctl00_MainBodyContent_mGeneralEnquirySearchControl_mTabControl_ctl00_mLicenceApplicationNumberTextBox''
       then Inr () else Inl (Exception ''Timeout 5000ms exceeded'')),
     fill = (\<lambda>selector v. Inr ()),
     query_text_inputs = Inr (),
     log_text_inputs = Inr (),
     submit_search = Inr (),
     summary_page = (\<lambda>debug. Inr OnDetailPage),
     verify_and_locate = (\<lambda>debug. Inr ()),
     all_rows = Inr rows,
     download = (\<lambda>l path. Inl (Exception ''Timeout 30000ms exceeded'')),
     error_capture = Inl (Exception ''Target page, context or browser has been closed''),
     pd_close = Inr ()\<rparr>"

section \<open>Facts about strings and the matcher\<close>

text \<open>
  The character functions on a character given by its bits; these equations are the ones
  used to evaluate the functions on concrete texts.
\<close>

lemma lower_char_Char [code]:
  "lower_char (Char b0 b1 b2 b3 b4 b5 b6 b7) =
     (if b6 \<and> \<not> b5 \<and> (if b7 then \<not> (b4 \<and> b2 \<and> b1 \<and> b0)
                      else (b0 \<or> b1 \<or> b2 \<or> b3 \<or> b4) \<and> \<not> (b4 \<and> b3 \<and> (b2 \<or> (b1 \<and> b0))))
      then Char b0 b1 b2 b3 b4 True b6 b7 else Char b0 b1 b2 b3 b4 b5 b6 b7)"
  by (cases b0; cases b1; cases b2; cases b3; cases b4; cases b5; cases b6; cases b7;
      simp add: lower_char_def cp_def char_of_eq_iff)

lemma is_space_Char [code]:
  "is_space (Char b0 b1 b2 b3 b4 b5 b6 b7) =
     (Char b0 b1 b2 b3 b4 b5 b6 b7 \<in> set [CHR 0x09, CHR 0x0A, CHR 0x0B, CHR 0x0C, CHR 0x0D,
        CHR 0x1C, CHR 0x1D, CHR 0x1E, CHR 0x1F, CHR 0x20, CHR 0x85, CHR 0xA0])"
  by (cases b0; cases b1; cases b2; cases b3; cases b4; cases b5; cases b6; cases b7;
      simp add: is_space_def cp_def)

lemma is_linebreak_Char [code]:
  "is_linebreak (Char b0 b1 b2 b3 b4 b5 b6 b7) =
     (Char b0 b1 b2 b3 b4 b5 b6 b7 \<in> set [CHR 0x0A, CHR 0x0B, CHR 0x0C, CHR 0x0D,
        CHR 0x1C, CHR 0x1D, CHR 0x1E, CHR 0x85])"
  by (cases b0; cases b1; cases b2; cases b3; cases b4; cases b5; cases b6; cases b7;
      simp add: is_linebreak_def cp_def)

lemma lit_match_ci: "ignorecase f \<Longrightarrow> lit_match f p s = prefix (lower p) (lower s)"
  by (induction f p s rule: lit_match.induct) (auto simp: lower_def char_eq_def)


lemma lit_match_prefix: "lit_match re_I p s = prefix (lower p) (lower s)"
  by (simp add: lit_match_ci re_I_def)

lemma lit_match_length: "lit_match f p s \<Longrightarrow> length p \<le> length s"
  by (induction f p s rule: lit_match.induct) auto

lemma prefix_lower_take:
  assumes "prefix (lower p) (lower s)"
  shows "lower (take (length p) s) = lower p"
proof -
  from assms obtain r where "lower s = lower p @ r"
    by (auto simp: prefix_def)
  then have "take (length p) (lower s) = lower p"
    by (simp add: lower_def)
  then show ?thesis
    by (simp add: lower_def take_map)
qed

lemma contains_prefix: "prefix z s \<Longrightarrow> contains z s"
  by (cases s) auto

lemma contains_append: "contains (lower z) (lower (pre @ z @ suf))"
  by (induction pre) (auto simp: lower_def intro: contains_prefix)

lemma rmatch_Group_Alt:
  "rmatch f (Group (Alt a b)) s g = rmatch f (Group a) s g @ rmatch f (Group b) s g"
  by simp

lemma rmatch_Group_Lit:
  "rmatch f (Group (Lit p)) s g =
     (if lit_match f p s then [(drop (length p) s, Some (take (length p) s))] else [])"
  by (auto dest: lit_match_length)

section \<open>Zone extraction\<close>

lemma rmatch_zone:
  "rmatch re_I zone_re s None =
     map (\<lambda>q. (drop (length q) s, Some (take (length q) s)))
       (filter (\<lambda>q. lit_match re_I q s) zone_phrases)"
  unfolding zone_re_def zone_phrases_def rmatch_Group_Alt rmatch_Group_Lit
  by (simp del: lit_match.simps)

lemma contains_lower_Cons:
  "contains (lower q) (lower (c # cs)) = (lit_match re_I q (c # cs) \<or> contains (lower q) (lower cs))"
  by (simp add: lit_match_prefix) (simp add: lower_def)

lemma zone_search_None:
  "(re_search re_I zone_re s = None) = (\<forall>q \<in> set zone_phrases. \<not> contains (lower q) (lower s))"
proof (induction s)
  case Nil
  show ?case
    by (simp add: rmatch_zone) (simp add: zone_phrases_def lower_def)
next
  case (Cons c cs)
  show ?case
  proof (cases "filter (\<lambda>q. lit_match re_I q (c # cs)) zone_phrases")
    case Nil
    then have "\<forall>q \<in> set zone_phrases. \<not> lit_match re_I q (c # cs)"
      by (simp add: filter_empty_conv)
    with Nil Cons show ?thesis
      by (simp add: rmatch_zone contains_lower_Cons del: lit_match.simps)
  next
    case (Cons q qs)
    then have "q \<in> set (filter (\<lambda>q. lit_match re_I q (c # cs)) zone_phrases)"
      by simp
    then have "q \<in> set zone_phrases \<and> lit_match re_I q (c # cs)"
      by simp
    with Cons show ?thesis
      by (auto simp add: rmatch_zone contains_lower_Cons simp del: lit_match.simps)
  qed
qed

lemma zone_search_Some:
  "re_search re_I zone_re s = Some g \<Longrightarrow>
     \<exists>q \<in> set zone_phrases. \<exists>pre z suf. s = pre @ z @ suf \<and> g = Some z \<and> lower z = lower q"
proof (induction s)
  case Nil
  then show ?case
    by (simp add: rmatch_zone) (simp add: zone_phrases_def)
next
  case (Cons c cs)
  show ?case
  proof (cases "filter (\<lambda>q. lit_match re_I q (c # cs)) zone_phrases")
    case Nil
    with Cons.prems have "re_search re_I zone_re cs = Some g"
      by (simp add: rmatch_zone del: lit_match.simps)
    from Cons.IH [OF this] obtain q pre z suf
      where "q \<in> set zone_phrases" "cs = pre @ z @ suf" "g = Some z" "lower z = lower q"
      by blast
    then have "c # cs = (c # pre) @ z @ suf" by simp
    with \<open>q \<in> set zone_phrases\<close> \<open>g = Some z\<close> \<open>lower z = lower q\<close> show ?thesis
      by blast
  next
    case (Cons q qs)
    then have "q \<in> set (filter (\<lambda>q. lit_match re_I q (c # cs)) zone_phrases)"
      by simp
    then have q: "q \<in> set zone_phrases" "lit_match re_I q (c # cs)"
      by simp_all
    from Cons Cons.prems have g: "g = Some (take (length q) (c # cs))"
      by (simp add: rmatch_zone del: lit_match.simps)
    have "c # cs = [] @ take (length q) (c # cs) @ drop (length q) (c # cs)"
      by simp
    moreover have "lower (take (length q) (c # cs)) = lower q"
      using q(2) by (simp only: lit_match_prefix prefix_lower_take)
    ultimately show ?thesis
      using q(1) g by blast
  qed
qed

lemma find_filter: "find P xs = (case filter P xs of [] \<Rightarrow> None | x # rest \<Rightarrow> Some x)"
  by (induction xs) auto

lemma zone_search_first: "re_search re_I zone_re s = map_option Some (first_zone s)"
proof (induction s)
  case Nil
  show ?case
    by (simp add: rmatch_zone lit_match_prefix anchor_here_def find_filter split: list.splits
        del: lit_match.simps)
next
  case (Cons c cs)
  then show ?case
    by (simp add: rmatch_zone lit_match_prefix anchor_here_def find_filter split: list.splits
        del: lit_match.simps)
qed

lemma extract_zone_first: "extract_zone blob = first_zone blob"
  by (cases "first_zone blob") (simp_all add: extract_zone_def group1_def zone_search_first)

lemma find_phrase:
  "find (\<lambda>q. anchor_here q s) zone_phrases = Some q \<Longrightarrow> q \<in> set zone_phrases \<and> anchor_here q s"
  by (auto simp: find_Some_iff)

lemma find_no_phrase:
  "find (\<lambda>q. anchor_here q s) zone_phrases = None \<Longrightarrow> \<forall>q \<in> set zone_phrases. \<not> anchor_here q s"
  by (simp add: find_None_iff)

lemma first_zone_place:
  "first_zone s = Some z \<Longrightarrow>
     \<exists>k q. k \<le> length s \<and> q \<in> set zone_phrases \<and> phrase_at q s k
       \<and> z = take (length q) (drop k s)
       \<and> (\<forall>j < k. \<forall>q' \<in> set zone_phrases. \<not> phrase_at q' s j)"
proof (induction s)
  case Nil
  then obtain q where q: "find (\<lambda>q. anchor_here q []) zone_phrases = Some q" "z = take (length q) []"
    by (auto split: option.splits)
  from find_phrase [OF q(1)] q(2) have "0 \<le> length ([]::string) \<and> q \<in> set zone_phrases \<and> phrase_at q [] 0
       \<and> z = take (length q) (drop 0 [])
       \<and> (\<forall>j < 0. \<forall>q' \<in> set zone_phrases. \<not> phrase_at q' [] j)"
    by (simp add: phrase_at_def)
  then show ?case by blast
next
  case (Cons c cs)
  show ?case
  proof (cases "find (\<lambda>q. anchor_here q (c # cs)) zone_phrases")
    case (Some q)
    with Cons.prems have z: "z = take (length q) (c # cs)"
      by simp
    from find_phrase [OF Some] z have "0 \<le> length (c # cs) \<and> q \<in> set zone_phrases \<and> phrase_at q (c # cs) 0
       \<and> z = take (length q) (drop 0 (c # cs))
       \<and> (\<forall>j < 0. \<forall>q' \<in> set zone_phrases. \<not> phrase_at q' (c # cs) j)"
      by (simp add: phrase_at_def)
    then show ?thesis by blast
  next
    case None
    with Cons.prems have "first_zone cs = Some z"
      by simp
    from Cons.IH [OF this] obtain k q where kq: "k \<le> length cs" "q \<in> set zone_phrases" "phrase_at q cs k"
       "z = take (length q) (drop k cs)" "\<forall>j < k. \<forall>q' \<in> set zone_phrases. \<not> phrase_at q' cs j"
      by blast
    have "\<forall>j < Suc k. \<forall>q' \<in> set zone_phrases. \<not> phrase_at q' (c # cs) j"
    proof (intro allI impI ballI)
      fix j q'
      assume j: "j < Suc k" and q': "q' \<in> set zone_phrases"
      show "\<not> phrase_at q' (c # cs) j"
      proof (cases j)
        case 0
        with find_no_phrase [OF None] q' show ?thesis
          by (simp add: phrase_at_def)
      next
        case (Suc j')
        with j kq(5) q' show ?thesis
          by (simp add: phrase_at_def)
      qed
    qed
    with kq have "Suc k \<le> length (c # cs) \<and> q \<in> set zone_phrases \<and> phrase_at q (c # cs) (Suc k)
       \<and> z = take (length q) (drop (Suc k) (c # cs))
       \<and> (\<forall>j < Suc k. \<forall>q' \<in> set zone_phrases. \<not> phrase_at q' (c # cs) j)"
      by (simp add: phrase_at_def)
    then show ?thesis by blast
  qed
qed

lemma phrases_no_prefix:
  "\<forall>q \<in> set zone_phrases. \<forall>p \<in> set zone_phrases. prefix (lower q) (lower p) \<longrightarrow> q = p"
  by code_simp

lemma only_phrase_zone:
  assumes p: "p \<in> set zone_phrases" and o: "only_phrase p blob"
  shows "\<exists>pre z suf. blob = pre @ z @ suf \<and> lower z = lower p \<and> extract_zone blob = Some z"
proof -
  from o have c: "contains (lower p) (lower blob)"
    by (simp add: only_phrase_def)
  with p have "re_search re_I zone_re blob \<noteq> None"
    using zone_search_None by blast
  then obtain z where z: "first_zone blob = Some z"
    by (auto simp: zone_search_first)
  from first_zone_place [OF this] obtain k q where kq: "k \<le> length blob" "q \<in> set zone_phrases"
     "phrase_at q blob k" "z = take (length q) (drop k blob)"
     "\<forall>j < k. \<forall>q' \<in> set zone_phrases. \<not> phrase_at q' blob j"
    by blast
  have "q = p"
  proof (rule ccontr)
    assume ne: "q \<noteq> p"
    from o kq(2) ne have "list_all (\<lambda>j. phrase_at q blob j \<longrightarrow> inside_occurrence p q blob j) [0..<Suc (length blob)]"
      by (auto simp: only_phrase_def list_all_iff)
    with kq(1,3) have "inside_occurrence p q blob k"
      by (auto simp: list_all_iff)
    then obtain i where i0: "i \<in> set [0..<Suc k]" and i1: "phrase_at p blob i" "k + length q \<le> i + length p"
      unfolding inside_occurrence_def list_ex_iff by blast
    from i0 have "i \<le> k"
      by auto
    note i = this i1
    from i(1,2) kq(5) p have "i = k"
      by (metis le_neq_implies_less)
    with i have pk: "phrase_at p blob k" and len: "length q \<le> length p"
      by simp_all
    from pk kq(3) have "prefix (lower p) (lower (drop k blob))" "prefix (lower q) (lower (drop k blob))"
      by (simp_all add: phrase_at_def anchor_here_def)
    with len have "prefix (lower q) (lower p)"
      by (metis prefix_length_prefix length_map lower_def)
    with phrases_no_prefix kq(2) p have "q = p"
      by blast
    with ne show False by simp
  qed
  with kq(3,4) have "lower z = lower p"
    by (simp add: phrase_at_def anchor_here_def prefix_lower_take)
  moreover have "blob = take k blob @ z @ drop (length q) (drop k blob)"
  proof -
    have "take (length q) (drop k blob) @ drop (length q) (drop k blob) = drop k blob"
      by (rule append_take_drop_id)
    then have "take k blob @ z @ drop (length q) (drop k blob) = take k blob @ drop k blob"
      by (simp only: kq(4))
    also have "\<dots> = blob"
      by (rule append_take_drop_id)
    finally show ?thesis
      by (rule sym)
  qed
  ultimately show ?thesis
    using z by (metis extract_zone_first)
qed

text \<open>
  Claim C1. When the panel text holds only one of the four zoning phrases, in whatever
  letter case, the zone extracted is a piece of the panel text that equals that phrase
  up to letter case, so it keeps the casing of the text. This is stated twice: for a
  text in which no other phrase occurs at all, and for a text in which every occurrence
  of another phrase lies inside an occurrence of the phrase (a text with
  \<open>Low-medium density residential\<close> always holds \<open>Medium density residential\<close> too, so
  only the second statement speaks of it). When none of the four occurs, no zone is
  extracted. In every case the zone extracted is the text at the leftmost place where
  one of the phrases occurs, and so a piece of the panel text that equals one of the
  four phrases up to letter case.
\<close>

theorem zone_extraction:
  "(p \<in> set zone_phrases \<and> contains (lower p) (lower blob)
      \<and> (\<forall>q \<in> set zone_phrases. q \<noteq> p \<longrightarrow> \<not> contains (lower q) (lower blob))
     \<longrightarrow> (\<exists>pre z suf. blob = pre @ z @ suf \<and> lower z = lower p \<and> extract_zone blob = Some z))
   \<and> (p \<in> set zone_phrases \<and> only_phrase p blob
     \<longrightarrow> (\<exists>pre z suf. blob = pre @ z @ suf \<and> lower z = lower p \<and> extract_zone blob = Some z))
   \<and> ((\<forall>q \<in> set zone_phrases. \<not> contains (lower q) (lower blob)) \<longrightarrow> extract_zone blob = None)
   \<and> (extract_zone blob = Some z \<longrightarrow>
        (\<exists>q \<in> set zone_phrases. \<exists>pre suf. blob = pre @ z @ suf \<and> lower z = lower q))
   \<and> extract_zone blob = first_zone blob
   \<and> extract_zone ''Zone: LOW-MEDIUM density Residential'' = Some ''LOW-MEDIUM density Residential''"
proof -
  have one: "\<exists>pre z suf. blob = pre @ z @ suf \<and> lower z = lower p \<and> extract_zone blob = Some z"
    if h: "p \<in> set zone_phrases \<and> contains (lower p) (lower blob)
      \<and> (\<forall>q \<in> set zone_phrases. q \<noteq> p \<longrightarrow> \<not> contains (lower q) (lower blob))"
  proof -
    from h have "re_search re_I zone_re blob \<noteq> None"
      using zone_search_None by blast
    then obtain g where g: "re_search re_I zone_re blob = Some g"
      by blast
    from zone_search_Some [OF this] obtain q pre z suf
      where q: "q \<in> set zone_phrases" "blob = pre @ z @ suf" "g = Some z" "lower z = lower q"
      by blast
    have "contains (lower q) (lower blob)"
      using contains_append [of z pre suf] q by simp
    with h q(1) have "q = p" by blast
    with q g show ?thesis
      by (auto simp: extract_zone_def group1_def)
  qed
  have only: "\<exists>pre z suf. blob = pre @ z @ suf \<and> lower z = lower p \<and> extract_zone blob = Some z"
    if "p \<in> set zone_phrases \<and> only_phrase p blob"
    using that only_phrase_zone by blast
  have none: "extract_zone blob = None"
    if "\<forall>q \<in> set zone_phrases. \<not> contains (lower q) (lower blob)"
  proof -
    from that have "re_search re_I zone_re blob = None"
      by (simp only: zone_search_None)
    then show ?thesis
      by (simp add: extract_zone_def group1_def)
  qed
  have sound: "\<exists>q \<in> set zone_phrases. \<exists>pre suf. blob = pre @ z @ suf \<and> lower z = lower q"
    if "extract_zone blob = Some z"
  proof -
    from that have "re_search re_I zone_re blob = Some (Some z)"
      by (simp add: extract_zone_def group1_def split: option.splits)
    from zone_search_Some [OF this] show ?thesis
      by blast
  qed
  have ex: "extract_zone ''Zone: LOW-MEDIUM density Residential'' = Some ''LOW-MEDIUM density Residential''"
    by code_simp
  from one only none sound ex extract_zone_first [of blob] show ?thesis
    by blast
qed

theorem zone_extraction_witness:
  "(\<exists>pre z suf. ''Zone: MEDIUM Density residential (x)'' = pre @ z @ suf
      \<and> lower z = lower ''Medium density residential''
      \<and> extract_zone ''Zone: MEDIUM Density residential (x)'' = Some z)
   \<and> (\<exists>pre z suf. ''Zoning: low-MEDIUM Density residential area'' = pre @ z @ suf
      \<and> lower z = lower ''Low-medium density residential''
      \<and> extract_zone ''Zoning: low-MEDIUM Density residential area'' = Some z)
   \<and> extract_zone ''Zone: Rural'' = None"
proof -
  have a: "''Medium density residential'' \<in> set zone_phrases"
    by (simp add: zone_phrases_def)
  have b: "contains (lower ''Medium density residential'') (lower ''Zone: MEDIUM Density residential (x)'')"
    by code_simp
  have c: "\<forall>q \<in> set zone_phrases. q \<noteq> ''Medium density residential''
      \<longrightarrow> \<not> contains (lower q) (lower ''Zone: MEDIUM Density residential (x)'')"
    by code_simp
  have d: "\<forall>q \<in> set zone_phrases. \<not> contains (lower q) (lower ''Zone: Rural'')"
    by code_simp
  have e: "''Low-medium density residential'' \<in> set zone_phrases"
    by (simp add: zone_phrases_def)
  have f: "only_phrase ''Low-medium density residential'' ''Zoning: low-MEDIUM Density residential area''"
    by code_simp
  from a b c zone_extraction [of "''Medium density residential''" "''Zone: MEDIUM Density residential (x)''"]
  have "\<exists>pre z suf. ''Zone: MEDIUM Density residential (x)'' = pre @ z @ suf
      \<and> lower z = lower ''Medium density residential''
      \<and> extract_zone ''Zone: MEDIUM Density residential (x)'' = Some z"
    by blast
  moreover from e f
    zone_extraction [of "''Low-medium density residential''" "''Zoning: low-MEDIUM Density residential area''"]
  have "\<exists>pre z suf. ''Zoning: low-MEDIUM Density residential area'' = pre @ z @ suf
      \<and> lower z = lower ''Low-medium density residential''
      \<and> extract_zone ''Zoning: low-MEDIUM Density residential area'' = Some z"
    by blast
  moreover from d zone_extraction [of "''Medium density residential''" "''Zone: Rural''"]
  have "extract_zone ''Zone: Rural'' = None"
    by blast
  ultimately show ?thesis
    by blast
qed

section \<open>Overlay extraction\<close>

text \<open>
  Claim C2. On the panel text of the specification's example the overlays extracted are
  exactly \<open>Flood overlay\<close> and \<open>Bushfire overlay\<close>, in this order: the line \<open>Show on map\<close>
  is excluded although its casing differs from the exclusion term, and the second
  \<open>Flood overlay\<close> is dropped.
\<close>

theorem overlay_example:
  "extract_overlays
     ''Overlays\<newline>Flood overlay\<newline>Show on map\<newline>Bushfire overlay\<newline>Flood overlay\<newline>LGIP''
   = [''Flood overlay'', ''Bushfire overlay'']
   \<and> excluded ''Show on map''
   \<and> snd (snd (extract_zone_density_overlays
     ''Overlays\<newline>Flood overlay\<newline>Show on map\<newline>Bushfire overlay\<newline>Flood overlay\<newline>LGIP''))
   = [''Flood overlay'', ''Bushfire overlay'']"
  by code_simp

lemma rmatch_lazy_dot: "rmatch re_I_DOTALL (LazyStar Dot) s g = map (\<lambda>t. (t, g)) (tails s)"
  by (induction s) (simp_all add: re_I_DOTALL_def)

lemma rmatch_end_anchor_empty:
  "(rmatch re_I_DOTALL end_anchor_re s g = []) = (\<not> ends_here s)"
  by (simp add: end_anchor_re_def ends_here_def end_anchors_def anchor_here_def lit_match_ci re_I_DOTALL_def
      del: lit_match.simps)

lemma rmatch_end_anchor_snd:
  "w \<in> set (rmatch re_I_DOTALL end_anchor_re s g) \<Longrightarrow> snd w = g"
  by (auto simp add: end_anchor_re_def split: if_splits simp del: lit_match.simps)

lemma section_ways:
  "\<exists>w ws. concat (map (\<lambda>t. rmatch re_I_DOTALL end_anchor_re t
              (Some (take (length (pre @ s) - length t) (pre @ s)))) (tails s)) = w # ws
     \<and> snd w = Some (pre @ section_end s)"
proof (induction s arbitrary: pre)
  case Nil
  have "rmatch re_I_DOTALL end_anchor_re [] (Some pre) \<noteq> []"
    by (simp add: rmatch_end_anchor_empty ends_here_def)
  then obtain w ws where w: "rmatch re_I_DOTALL end_anchor_re [] (Some pre) = w # ws"
    by (cases "rmatch re_I_DOTALL end_anchor_re [] (Some pre)") auto
  then have "w \<in> set (rmatch re_I_DOTALL end_anchor_re [] (Some pre))"
    by simp
  then have "snd w = Some pre"
    by (rule rmatch_end_anchor_snd)
  with w show ?case
    by (simp del: rmatch.simps)
next
  case (Cons c cs)
  show ?case
  proof (cases "ends_here (c # cs)")
    case True
    then have "rmatch re_I_DOTALL end_anchor_re (c # cs) (Some pre) \<noteq> []"
      by (simp add: rmatch_end_anchor_empty)
    then obtain w ws where w: "rmatch re_I_DOTALL end_anchor_re (c # cs) (Some pre) = w # ws"
      by (cases "rmatch re_I_DOTALL end_anchor_re (c # cs) (Some pre)") auto
    then have "w \<in> set (rmatch re_I_DOTALL end_anchor_re (c # cs) (Some pre))"
      by simp
    then have "snd w = Some pre"
      by (rule rmatch_end_anchor_snd)
    with w True show ?thesis
      by (simp del: rmatch.simps)
  next
    case False
    then have e: "rmatch re_I_DOTALL end_anchor_re (c # cs) (Some pre) = []"
      by (simp add: rmatch_end_anchor_empty)
    from Cons.IH [of "pre @ [c]"] obtain w ws where
      "concat (map (\<lambda>t. rmatch re_I_DOTALL end_anchor_re t
              (Some (take (length ((pre @ [c]) @ cs) - length t) ((pre @ [c]) @ cs)))) (tails cs)) = w # ws"
      "snd w = Some ((pre @ [c]) @ section_end cs)"
      by blast
    with e False show ?thesis
      by (simp del: rmatch.simps)
  qed
qed

lemma tails_length: "t \<in> set (tails s) \<Longrightarrow> length t \<le> length s"
  by (induction s) auto

lemma rmatch_overlay_rest:
  "\<exists>w ws. rmatch re_I_DOTALL (Seq (Group (LazyStar Dot)) end_anchor_re) s g = w # ws
     \<and> snd w = Some (section_end s)"
proof -
  have "rmatch re_I_DOTALL (Seq (Group (LazyStar Dot)) end_anchor_re) s g =
      concat (map (\<lambda>t. rmatch re_I_DOTALL end_anchor_re t
              (Some (take (length ([] @ s) - length t) ([] @ s)))) (tails s))"
    by (simp add: rmatch_lazy_dot comp_def del: rmatch.simps(9))
  with section_ways [of "[]" s] show ?thesis
    by simp
qed

lemma rmatch_Seq_Lit:
  "rmatch f (Seq (Lit p) b) s g = (if lit_match f p s then rmatch f b (drop (length p) s) g else [])"
  by simp

lemma rmatch_overlay:
  "rmatch re_I_DOTALL overlay_re s None =
     (if anchor_here ''Overlays'' s
      then rmatch re_I_DOTALL (Seq (Group (LazyStar Dot)) end_anchor_re) (drop (length ''Overlays'') s) None
      else [])"
proof -
  have "lit_match re_I_DOTALL ''Overlays'' s = anchor_here ''Overlays'' s"
    by (simp add: anchor_here_def lit_match_ci re_I_DOTALL_def del: lit_match.simps)
  then show ?thesis
    unfolding overlay_re_def rmatch_Seq_Lit by simp
qed

lemma overlay_section_eq:
  "overlay_section blob = map_option (\<lambda>rest. Some (section_end rest)) (after_anchor ''Overlays'' blob)"
proof (induction blob)
  case Nil
  show ?case
    by (simp add: overlay_section_def rmatch_overlay anchor_here_def lower_def del: rmatch.simps)
next
  case (Cons c cs)
  show ?case
  proof (cases "anchor_here ''Overlays'' (c # cs)")
    case True
    from rmatch_overlay_rest [of "drop (length ''Overlays'') (c # cs)" None] obtain w ws where
      "rmatch re_I_DOTALL (Seq (Group (LazyStar Dot)) end_anchor_re) (drop (length ''Overlays'') (c # cs)) None = w # ws"
      "snd w = Some (section_end (drop (length ''Overlays'') (c # cs)))"
      by blast
    with True show ?thesis
      by (simp add: overlay_section_def rmatch_overlay del: rmatch.simps)
  next
    case False
    with Cons show ?thesis
      by (simp add: overlay_section_def rmatch_overlay del: rmatch.simps)
  qed
qed


lemma is_linebreak_nl: "is_linebreak (CHR 0x0A)" "is_linebreak (CHR 0x0D)"
  by (simp_all add: is_linebreak_def cp_def)

lemma strip_Nil: "strip [] = []"
  by (simp add: strip_def)

lemma splitlines_acc_nl:
  "filter (\<lambda>ln. strip ln \<noteq> []) (splitlines_acc acc (xs @ [CHR 0x0A])) =
   filter (\<lambda>ln. strip ln \<noteq> []) (splitlines_acc acc xs)"
proof (induction acc xs rule: splitlines_acc.induct)
  case (1 acc)
  show ?case
    by (simp add: is_linebreak_nl strip_Nil)
next
  case (2 acc c cs)
  show ?case
  proof (cases cs)
    case Nil
    then show ?thesis
      by (simp add: is_linebreak_nl strip_Nil)
  next
    case (Cons d ds)
    show ?thesis
    proof (cases "c = CHR 0x0D \<and> d = CHR 0x0A")
      case True
      with Cons 2(1) show ?thesis
        by simp
    next
      case False
      show ?thesis
      proof (cases "is_linebreak c")
        case lb: True
        with False Cons 2(2) show ?thesis
          by auto
      next
        case nlb: False
        with False Cons 2(3) show ?thesis
          by auto
      qed
    qed
  qed
qed

lemma section_end_before:
  "section_end s = before_end_anchor end_anchors s
   \<or> before_end_anchor end_anchors s = section_end s @ [CHR 0x0A]"
proof (induction s)
  case Nil
  show ?case by simp
next
  case (Cons c cs)
  show ?case
  proof (cases "list_ex (\<lambda>e. anchor_here e (c # cs)) end_anchors")
    case True
    then show ?thesis
      by (simp add: ends_here_def)
  next
    case False
    show ?thesis
    proof (cases "c # cs = [CHR 0x0A]")
      case True
      with False show ?thesis
        by (simp add: ends_here_def)
    next
      case no_nl: False
      with False Cons show ?thesis
        by (auto simp add: ends_here_def)
    qed
  qed
qed

lemma stripped_lines_section:
  "stripped_lines (section_end s) = stripped_lines (before_end_anchor end_anchors s)"
  using section_end_before [of s] splitlines_acc_nl [of "[]" "section_end s"]
  by (auto simp: stripped_lines_def splitlines_def)

lemma overlays_loop_eq:
  "overlays_loop lns ovs =
     ovs @ filter (\<lambda>y. y \<notin> set ovs) (first_seen (filter (\<lambda>ln. \<not> excluded ln \<and> 5 < length ln) lns))"
proof (induction lns arbitrary: ovs)
  case Nil
  show ?case by simp
next
  case (Cons ln lns)
  let ?K = "first_seen (filter (\<lambda>ln. \<not> excluded ln \<and> 5 < length ln) lns)"
  show ?case
  proof (cases "\<not> excluded ln \<and> 5 < length ln")
    case False
    with Cons [of ovs] show ?thesis
      by auto
  next
    case keep: True
    show ?thesis
    proof (cases "ln \<in> set ovs")
      case True
      have "filter (\<lambda>y. y \<notin> set ovs) (filter (\<lambda>y. y \<noteq> ln) ?K) = filter (\<lambda>y. y \<notin> set ovs) ?K"
        using True by (auto intro: filter_cong)
      with keep True Cons [of ovs] show ?thesis
        by simp
    next
      case False
      have "filter (\<lambda>y. y \<notin> set (ovs @ [ln])) ?K = filter (\<lambda>y. y \<notin> set ovs) (filter (\<lambda>y. y \<noteq> ln) ?K)"
        by (auto intro: filter_cong)
      with keep False Cons [of "ovs @ [ln]"] show ?thesis
        by simp
    qed
  qed
qed

lemma set_first_seen: "set (first_seen xs) = set xs"
  by (induction xs) auto

lemma distinct_first_seen: "distinct (first_seen xs)"
  by (induction xs) (auto simp: set_first_seen)

text \<open>
  Claim C3, as amended. The overlays extracted are the lines of the isolated section
  (the text after the first \<open>Overlays\<close> up to the first following end anchor, or to the
  end of the panel text), trimmed, that are not empty, hold no excluded term in whatever
  letter case and are longer than five characters, without duplicates and in the order
  of their first occurrence; nothing else removes a line.
\<close>

theorem section_scanner:
  "extract_overlays blob =
     (case isolated_section blob of
        None \<Rightarrow> []
      | Some sec \<Rightarrow> first_seen (filter (\<lambda>ln. \<not> excluded ln \<and> 5 < length ln) (stripped_lines sec)))
   \<and> (isolated_section blob = Some sec \<longrightarrow>
        set (extract_overlays blob) = {ln \<in> set (stripped_lines sec). \<not> excluded ln \<and> 5 < length ln}
        \<and> distinct (extract_overlays blob))"
proof -
  have a: "extract_overlays blob =
     (case isolated_section blob of
        None \<Rightarrow> []
      | Some sec \<Rightarrow> first_seen (filter (\<lambda>ln. \<not> excluded ln \<and> 5 < length ln) (stripped_lines sec)))"
    by (cases "after_anchor ''Overlays'' blob")
       (simp_all add: extract_overlays_def overlay_section_eq isolated_section_def
          overlays_loop_eq stripped_lines_section)
  then show ?thesis
    by (auto simp: set_first_seen distinct_first_seen)
qed

theorem section_scanner_witness:
  "isolated_section ''Overlays\<newline>Flood overlay\<newline>Show on map\<newline>Bushfire overlay\<newline>Flood overlay\<newline>LGIP''
     = Some ''\<newline>Flood overlay\<newline>Show on map\<newline>Bushfire overlay\<newline>Flood overlay\<newline>''
   \<and> set (extract_overlays ''Overlays\<newline>Flood overlay\<newline>Show on map\<newline>Bushfire overlay\<newline>Flood overlay\<newline>LGIP'')
     = {ln \<in> set (stripped_lines ''\<newline>Flood overlay\<newline>Show on map\<newline>Bushfire overlay\<newline>Flood overlay\<newline>'').
          \<not> excluded ln \<and> 5 < length ln}
   \<and> distinct (extract_overlays ''Overlays\<newline>Flood overlay\<newline>Show on map\<newline>Bushfire overlay\<newline>Flood overlay\<newline>LGIP'')"
proof -
  have "isolated_section ''Overlays\<newline>Flood overlay\<newline>Show on map\<newline>Bushfire overlay\<newline>Flood overlay\<newline>LGIP''
     = Some ''\<newline>Flood overlay\<newline>Show on map\<newline>Bushfire overlay\<newline>Flood overlay\<newline>''"
    by code_simp
  with section_scanner [of "''Overlays\<newline>Flood overlay\<newline>Show on map\<newline>Bushfire overlay\<newline>Flood overlay\<newline>LGIP''"
      "''\<newline>Flood overlay\<newline>Show on map\<newline>Bushfire overlay\<newline>Flood overlay\<newline>''"]
  show ?thesis
    by blast
qed

text \<open>
  The claim as first stated fails on a short line: \<open>Flood\<close> is a line of the isolated
  section, not empty, not excluded and not a duplicate, and it is not extracted.
\<close>

theorem section_scanner_counterexample:
  "isolated_section ''Overlays\<newline>Flood\<newline>LGIP'' = Some ''\<newline>Flood\<newline>''
   \<and> stripped_lines ''\<newline>Flood\<newline>'' = [''Flood'']
   \<and> \<not> excluded ''Flood''
   \<and> extract_overlays ''Overlays\<newline>Flood\<newline>LGIP'' = []"
  by code_simp

section \<open>Area extraction\<close>

lemma divs_loop_no_area:
  "list_all (\<lambda>d. case d of Inl e \<Rightarrow> True | Inr txt \<Rightarrow> re_search re_I area_re (strip txt) = None) ds
     \<Longrightarrow> fst (divs_loop ds None lotplan) = None"
  by (induction ds arbitrary: lotplan) (auto simp: area_update_def split: sum.splits)

lemma replace_comma_id: "CHR '','' \<notin> set v \<Longrightarrow> replace_comma v = v"
  by (induction v) (auto simp: replace_comma_def)

text \<open>
  Claim C6. The area \<open>1,234.5\<close> of a detail card is stored as \<open>1234.5\<close>; whatever the
  area pattern captures is stored with its commas removed, so a value without commas is
  stored unchanged; and when the pattern matches the text of no \<open>div\<close> (or the card
  cannot be read at all) the area is \<open>None\<close>, not the empty string.
\<close>

theorem area_extraction:
  "fst (extract_area_and_lotplan (Inr [Inr (''Plan Area 1,234.5 m'' @ [CHR 0xB2])])) = Some ''1234.5''
   \<and> fst (extract_area_and_lotplan (Inr [Inr ''Plan Area 200 m2''])) = Some ''200''
   \<and> (re_search re_I area_re (strip txt) = Some (Some v) \<longrightarrow>
        fst (extract_area_and_lotplan (Inr [Inr txt])) = Some (replace_comma v)
        \<and> CHR '','' \<notin> set (replace_comma v)
        \<and> (CHR '','' \<notin> set v \<longrightarrow> replace_comma v = v))
   \<and> (list_all (\<lambda>d. case d of Inl e \<Rightarrow> True | Inr txt \<Rightarrow> re_search re_I area_re (strip txt) = None) ds \<longrightarrow>
        fst (extract_area_and_lotplan (Inr ds)) = None)
   \<and> fst (extract_area_and_lotplan (Inl e)) = None"
proof -
  have a: "fst (extract_area_and_lotplan (Inr [Inr (''Plan Area 1,234.5 m'' @ [CHR 0xB2])])) = Some ''1234.5''"
    by code_simp
  have b: "fst (extract_area_and_lotplan (Inr [Inr ''Plan Area 200 m2''])) = Some ''200''"
    by code_simp
  have c: "re_search re_I area_re (strip txt) = Some (Some v) \<longrightarrow>
        fst (extract_area_and_lotplan (Inr [Inr txt])) = Some (replace_comma v)
        \<and> CHR '','' \<notin> set (replace_comma v)
        \<and> (CHR '','' \<notin> set v \<longrightarrow> replace_comma v = v)"
    by (auto simp: extract_area_and_lotplan_def area_update_def truthy_def replace_comma_id)
       (simp add: replace_comma_def)
  have d: "list_all (\<lambda>d. case d of Inl e \<Rightarrow> True | Inr txt \<Rightarrow> re_search re_I area_re (strip txt) = None) ds \<longrightarrow>
        fst (extract_area_and_lotplan (Inr ds)) = None"
    by (simp add: extract_area_and_lotplan_def divs_loop_no_area)
  have e: "fst (extract_area_and_lotplan (Inl e)) = None"
    by (simp add: extract_area_and_lotplan_def)
  from a b c d e show ?thesis
    by blast
qed

theorem area_extraction_witness:
  "fst (extract_area_and_lotplan (Inr [Inr ''Plan  area 2,000 M2''])) = Some ''2000''
   \<and> fst (extract_area_and_lotplan (Inr [Inr ''Lot/Plan 4GTP446'', Inl (Exception ''Timeout 1000ms exceeded'')])) = None"
proof -
  have m: "re_search re_I area_re (strip ''Plan  area 2,000 M2'') = Some (Some ''2,000'')"
    by code_simp
  have r: "replace_comma ''2,000'' = ''2000''"
    by code_simp
  have n: "list_all (\<lambda>d. case d of Inl e \<Rightarrow> True | Inr txt \<Rightarrow> re_search re_I area_re (strip txt) = None)
      [Inr ''Lot/Plan 4GTP446'', Inl (Exception ''Timeout 1000ms exceeded'')]"
    by code_simp
  from m r n
    area_extraction [of "''Plan  area 2,000 M2''" "''2,000''"
      "[Inr ''Lot/Plan 4GTP446'', Inl (Exception ''Timeout 1000ms exceeded'')]"]
  show ?thesis
    by simp
qed

section \<open>Selector loops, panel text and failures of the property workflow\<close>

lemma panel_loop_attempts:
  "fst (panel_loop inner sels) =
     takeWhile (\<lambda>s. \<not> resolves_panel inner s) sels
       @ take 1 (dropWhile (\<lambda>s. \<not> resolves_panel inner s) sels)"
  by (induction sels) (auto simp: attempted_def resolves_panel_def split: sum.splits)

lemma panel_loop_result:
  "snd (panel_loop inner sels) =
     (case dropWhile (\<lambda>s. \<not> resolves_panel inner s) sels of
        [] \<Rightarrow> None
      | s # rest \<Rightarrow> (case inner s of Inl e \<Rightarrow> None | Inr text \<Rightarrow> Some text))"
  by (induction sels) (auto simp: attempted_def resolves_panel_def split: sum.splits)

lemma fill_loop_attempts:
  "fst (fill_loop pg app sels) =
     takeWhile (\<lambda>s. \<not> resolves_input pg app s) sels
       @ take 1 (dropWhile (\<lambda>s. \<not> resolves_input pg app s) sels)"
  by (induction sels) (auto simp: attempted_def resolves_input_def split: sum.splits)

lemma fill_loop_result:
  "snd (fill_loop pg app sels) = (dropWhile (\<lambda>s. \<not> resolves_input pg app s) sels \<noteq> [])"
  by (induction sels) (auto simp: attempted_def resolves_input_def split: sum.splits)

text \<open>
  Claim C7. Both selector loops attempt the strategies in the order of the list: the
  attempts are the strategies before the first one that resolves, each of which has
  failed, followed by that one, and the loop stops there. For three strategies of which
  only the last resolves the attempts are the first, the second, then the third.
\<close>

theorem locator_order:
  "fst (panel_loop inner sels) =
     takeWhile (\<lambda>s. \<not> resolves_panel inner s) sels
       @ take 1 (dropWhile (\<lambda>s. \<not> resolves_panel inner s) sels)
   \<and> snd (panel_loop inner sels) =
       (case dropWhile (\<lambda>s. \<not> resolves_panel inner s) sels of
          [] \<Rightarrow> None
        | s # rest \<Rightarrow> (case inner s of Inl e \<Rightarrow> None | Inr text \<Rightarrow> Some text))
   \<and> (\<not> resolves_panel inner A \<and> \<not> resolves_panel inner B \<and> resolves_panel inner C \<longrightarrow>
        fst (panel_loop inner [A, B, C]) = [A, B, C]
        \<and> (\<exists>text. inner C = Inr text \<and> snd (panel_loop inner [A, B, C]) = Some text))
   \<and> fst (fill_loop pg app sels) =
       takeWhile (\<lambda>s. \<not> resolves_input pg app s) sels
         @ take 1 (dropWhile (\<lambda>s. \<not> resolves_input pg app s) sels)
   \<and> snd (fill_loop pg app sels) = (dropWhile (\<lambda>s. \<not> resolves_input pg app s) sels \<noteq> [])
   \<and> (\<not> resolves_input pg app A \<and> \<not> resolves_input pg app B \<and> resolves_input pg app C \<longrightarrow>
        fill_loop pg app [A, B, C] = ([A, B, C], True))"
proof -
  have abc: "\<not> resolves_panel inner A \<and> \<not> resolves_panel inner B \<and> resolves_panel inner C \<longrightarrow>
        fst (panel_loop inner [A, B, C]) = [A, B, C]
        \<and> (\<exists>text. inner C = Inr text \<and> snd (panel_loop inner [A, B, C]) = Some text)"
    by (auto simp: resolves_panel_def attempted_def split: sum.splits)
  have abc': "\<not> resolves_input pg app A \<and> \<not> resolves_input pg app B \<and> resolves_input pg app C \<longrightarrow>
        fill_loop pg app [A, B, C] = ([A, B, C], True)"
    by (auto simp: resolves_input_def attempted_def split: sum.splits)
  from abc abc' show ?thesis
    by (simp only: panel_loop_attempts panel_loop_result fill_loop_attempts fill_loop_result simp_thms)
qed

theorem locator_order_witness:
  "panel_loop (selector_text widget_page) selectors
     = ([''.esri-feature__content-node'', ''.esri-feature'', ''.esri-widget''],
        Some ''Zone\<newline>High density residential'')
   \<and> fill_loop (registry_page []) ''MIN/2024/216'' selectors_to_try = (selectors_to_try, True)"
proof -
  have a: "\<not> resolves_panel (selector_text widget_page) ''.esri-feature__content-node''"
    by code_simp
  have b: "\<not> resolves_panel (selector_text widget_page) ''.esri-feature''"
    by code_simp
  have c: "resolves_panel (selector_text widget_page) ''.esri-widget''"
    by code_simp
  have t: "takeWhile (\<lambda>s. \<not> resolves_panel (selector_text widget_page) s) selectors
       @ take 1 (dropWhile (\<lambda>s. \<not> resolves_panel (selector_text widget_page) s) selectors)
      = [''.esri-feature__content-node'', ''.esri-feature'', ''.esri-widget'']"
    by code_simp
  have u: "(case dropWhile (\<lambda>s. \<not> resolves_panel (selector_text widget_page) s) selectors of
          [] \<Rightarrow> None
        | s # rest \<Rightarrow> (case selector_text widget_page s of Inl e \<Rightarrow> None | Inr text \<Rightarrow> Some text))
      = Some ''Zone\<newline>High density residential''"
    by code_simp
  have a': "\<not> resolves_input (registry_page []) ''MIN/2024/216'' (selectors_to_try ! 0)"
    by code_simp
  have b': "\<not> resolves_input (registry_page []) ''MIN/2024/216'' (selectors_to_try ! 1)"
    by code_simp
  have c': "resolves_input (registry_page []) ''MIN/2024/216'' (selectors_to_try ! 2)"
    by code_simp
  have l: "selectors_to_try = [selectors_to_try ! 0, selectors_to_try ! 1, selectors_to_try ! 2]"
    by code_simp
  from locator_order [of "selector_text widget_page" selectors _ _ _ "registry_page []" "''MIN/2024/216''"] t u
  have "panel_loop (selector_text widget_page) selectors
     = ([''.esri-feature__content-node'', ''.esri-feature'', ''.esri-widget''],
        Some ''Zone\<newline>High density residential'')"
    by (simp add: prod_eq_iff)
  moreover from locator_order [of "selector_text widget_page" selectors "selectors_to_try ! 0" "selectors_to_try ! 1" "selectors_to_try ! 2"
      "registry_page []" "''MIN/2024/216''"] a' b' c'
  have "fill_loop (registry_page []) ''MIN/2024/216'' [selectors_to_try ! 0, selectors_to_try ! 1, selectors_to_try ! 2]
      = ([selectors_to_try ! 0, selectors_to_try ! 1, selectors_to_try ! 2], True)"
    by blast
  then have "fill_loop (registry_page []) ''MIN/2024/216'' selectors_to_try = (selectors_to_try, True)"
    by (simp only: l [symmetric])
  ultimately show ?thesis
    by blast
qed

text \<open>
  Claim C8, as amended. When the wait for the zone text times out and the page body can
  be read, the timeout is not raised: the capture returns the text of the body, and a
  run whose other steps succeed goes on to the end and returns a record whose zone,
  density and overlays are extracted from that text.
\<close>

theorem panel_timeout_fallback:
  "(wait_for_zone pg = Inl e \<and> body_text pg 0 = Inr text \<longrightarrow> scrape_left_panel_text pg = Inr text)
   \<and> (wait_for_zone pg = Inl e \<and> body_text pg 0 = Inr text
       \<and> launch_browser pg = Inr () \<and> goto_cityplan pg = Inr () \<and> search_and_select pg query = Inr ()
       \<and> inspection_wait pg = Inr () \<and> close_browser pg = Inr ()
      \<longrightarrow> (\<exists>r. scrape_goldcoast_property pg query = Inr r
            \<and> zone r = extract_zone text \<and> residential_density r = extract_density text
            \<and> overlays r = Some (extract_overlays text)))"
proof (intro conjI impI)
  assume "wait_for_zone pg = Inl e \<and> body_text pg 0 = Inr text"
  then show "scrape_left_panel_text pg = Inr text"
    by (simp add: scrape_left_panel_text_def)
next
  assume h: "wait_for_zone pg = Inl e \<and> body_text pg 0 = Inr text
       \<and> launch_browser pg = Inr () \<and> goto_cityplan pg = Inr () \<and> search_and_select pg query = Inr ()
       \<and> inspection_wait pg = Inr () \<and> close_browser pg = Inr ()"
  then have panel: "scrape_left_panel_text pg = Inr text"
    by (simp add: scrape_left_panel_text_def)
  with h show "\<exists>r. scrape_goldcoast_property pg query = Inr r
            \<and> zone r = extract_zone text \<and> residential_density r = extract_density text
            \<and> overlays r = Some (extract_overlays text)"
    by (simp add: scrape_goldcoast_property_def scrape_steps_def and_then_def Let_def
        store_zone_density_overlays_def extract_zone_density_overlays_def
        capture_building_height_def split: option.splits)
qed

theorem panel_timeout_fallback_witness:
  "scrape_left_panel_text slow_page
     = Inr ''Zone\<newline>Medium density residential\<newline>Overlays\<newline>Flood overlay\<newline>LGIP''
   \<and> (\<exists>r. scrape_goldcoast_property slow_page ''12 Example Street'' = Inr r
        \<and> zone r = extract_zone ''Zone\<newline>Medium density residential\<newline>Overlays\<newline>Flood overlay\<newline>LGIP''
        \<and> residential_density r
            = extract_density ''Zone\<newline>Medium density residential\<newline>Overlays\<newline>Flood overlay\<newline>LGIP''
        \<and> overlays r
            = Some (extract_overlays ''Zone\<newline>Medium density residential\<newline>Overlays\<newline>Flood overlay\<newline>LGIP''))"
proof -
  have w: "wait_for_zone slow_page = Inl (Exception ''Timeout 10000ms exceeded'')"
    by (simp add: slow_page_def)
  have b: "body_text slow_page 0
      = Inr ''Zone\<newline>Medium density residential\<newline>Overlays\<newline>Flood overlay\<newline>LGIP''"
    by (simp add: slow_page_def)
  have o: "launch_browser slow_page = Inr ()" "goto_cityplan slow_page = Inr ()"
    "search_and_select slow_page ''12 Example Street'' = Inr ()"
    "inspection_wait slow_page = Inr ()" "close_browser slow_page = Inr ()"
    by (simp_all add: slow_page_def)
  from w b o panel_timeout_fallback [of slow_page "Exception ''Timeout 10000ms exceeded''"
      "''Zone\<newline>Medium density residential\<newline>Overlays\<newline>Flood overlay\<newline>LGIP''" "''12 Example Street''"]
  show ?thesis
    by blast
qed

text \<open>
  The claim as first stated fails when the body cannot be read: the fallback read of
  line 83 stands outside any \<open>try\<close>, so after the timeout its exception is raised and
  the run is aborted.
\<close>

theorem panel_timeout_counterexample:
  "wait_for_zone unreadable_page = Inl (Exception ''Timeout 10000ms exceeded'')
   \<and> scrape_left_panel_text unreadable_page
       = Inl (Exception ''Target page, context or browser has been closed'')
   \<and> scrape_goldcoast_property unreadable_page ''12 Example Street''
       = Inl (Exception ''Target page, context or browser has been closed'')"
  by (simp add: scrape_goldcoast_property_def scrape_steps_def on_error_def and_then_def
      scrape_left_panel_text_def unreadable_page_def slow_page_def)

text \<open>
  Claim C9. The property workflow takes its error screenshot outside any \<open>try\<close>: on a
  page that cannot be loaded and cannot be captured either, the workflow raises the
  screenshot's exception, and the navigation timeout that made it fail is lost. The
  downloader's handler (\<open>downloader_capture_swallowed\<close> below) does swallow a failed
  capture.
\<close>

theorem capture_failure_masks_error:
  "scrape_steps failing_page ''12 Example Street'' = Inl (Exception ''Timeout 30000ms exceeded'')
   \<and> scrape_goldcoast_property failing_page ''12 Example Street''
       = Inl (Exception ''Target page, context or browser has been closed'')
   \<and> scrape_goldcoast_property (failing_page\<lparr>error_screenshot := Inr ()\<rparr>) ''12 Example Street''
       = Inl (Exception ''Timeout 30000ms exceeded'')"
  by (simp add: scrape_goldcoast_property_def scrape_steps_def on_error_def and_then_def
      failing_page_def slow_page_def)

lemma downloader_capture_swallowed:
  "pd_on_error pg debug e = and_then (pd_close pg) (\<lambda>u. Inr (failure (str_exn e)))"
  by (simp add: pd_on_error_def)

lemma scrape_steps_address: "scrape_steps pg query = Inr r \<Longrightarrow> address r = query"
  by (auto simp: scrape_steps_def and_then_def Let_def new_result_def store_area_lotplan_def
      store_zone_density_overlays_def capture_building_height_def split: sum.splits option.splits if_splits)

text \<open>
  Claim C10. The record a run returns has the query as its address: the address is set
  when the record is created, and each extraction stage changes only its own fields
  (the record after a stage equals the record before it once those fields are
  overwritten on both sides).
\<close>

theorem address_preserved:
  "(scrape_goldcoast_property pg query = Inr r \<longrightarrow> address r = query)
   \<and> address (new_result query) = query
   \<and> (store_area_lotplan res al)\<lparr>area_sqm := a, lot_plan := l\<rparr> = res\<lparr>area_sqm := a, lot_plan := l\<rparr>
   \<and> (store_zone_density_overlays res zdo)\<lparr>zone := z, residential_density := d, overlays := ov\<rparr>
       = res\<lparr>zone := z, residential_density := d, overlays := ov\<rparr>
   \<and> (capture_building_height pg res)\<lparr>building_height := h\<rparr> = res\<lparr>building_height := h\<rparr>"
proof -
  have "scrape_goldcoast_property pg query = Inr r \<longrightarrow> address r = query"
    by (auto simp: scrape_goldcoast_property_def and_then_def Let_def on_error_def
        dest: scrape_steps_address split: sum.splits)
  then show ?thesis
    by (simp add: new_result_def store_area_lotplan_def store_zone_density_overlays_def
        capture_building_height_def split: option.splits)
qed

theorem address_preserved_witness:
  "scrape_goldcoast_property slow_page ''12 Example Street''
     = Inr \<lparr>address = ''12 Example Street'', lot_plan = Some ''4GTP446'',
         zone = Some ''Medium density residential'', residential_density = None,
         area_sqm = Some ''1234.5'', building_height = None, overlays = Some [''Flood overlay'']\<rparr>
   \<and> address \<lparr>address = ''12 Example Street'', lot_plan = Some ''4GTP446'',
         zone = Some ''Medium density residential'', residential_density = None,
         area_sqm = Some ''1234.5'', building_height = None, overlays = Some [''Flood overlay'']\<rparr>
       = ''12 Example Street''"
proof -
  have run: "scrape_goldcoast_property slow_page ''12 Example Street''
     = Inr \<lparr>address = ''12 Example Street'', lot_plan = Some ''4GTP446'',
         zone = Some ''Medium density residential'', residential_density = None,
         area_sqm = Some ''1234.5'', building_height = None, overlays = Some [''Flood overlay'']\<rparr>"
    by code_simp
  with address_preserved [of slow_page "''12 Example Street''"] show ?thesis
    by blast
qed

section \<open>The row matcher\<close>

lemma notice_loop_skip:
  "list_all (\<lambda>r. \<not> eligible r) pre \<Longrightarrow> notice_loop (pre @ rest) d = notice_loop rest d"
  by (induction pre arbitrary: d)
     (auto simp: eligible_def has_marker_def has_link_def split: sum.splits option.splits)

lemma notice_loop_hit:
  "has_marker row \<Longrightarrow> row_link row = Inr (Some l) \<Longrightarrow> link_inner_text l = Inr t \<Longrightarrow>
     notice_loop (row # post) d = Some l"
  by (auto simp: has_marker_def split: sum.splits)

lemma notice_loop_none:
  "list_all (\<lambda>r. \<not> eligible r) rows \<Longrightarrow> notice_loop rows None = None"
  using notice_loop_skip [of rows "[]" None] by simp

text \<open>
  Claim C4, as amended. The scan returns the link of the first row, in the order given,
  whose text is read and contains the marker phrase and whose first cell holds a link,
  when the text of that link can be read; rows after it play no part, and rows that
  contain the phrase without a link in the first cell are passed over. When no row is of
  this kind nothing is returned. For the three rows of the specification's example, each
  with its link, the link of the second row is returned.
\<close>

theorem row_matcher_first_hit:
  "(list_all (\<lambda>r. \<not> eligible r) pre \<and> has_marker row \<and> row_link row = Inr (Some l)
      \<and> link_inner_text l = Inr t \<longrightarrow> notice_loop (pre @ row # post) None = Some l)
   \<and> (list_all (\<lambda>r. \<not> eligible r) rows \<longrightarrow> notice_loop rows None = None)"
proof (intro conjI impI)
  assume h: "list_all (\<lambda>r. \<not> eligible r) pre \<and> has_marker row \<and> row_link row = Inr (Some l)
      \<and> link_inner_text l = Inr t"
  then have "notice_loop (pre @ row # post) None = notice_loop (row # post) None"
    by (simp only: notice_loop_skip)
  also from h have "\<dots> = Some l"
    by (simp only: notice_loop_hit)
  finally show "notice_loop (pre @ row # post) None = Some l" .
next
  assume "list_all (\<lambda>r. \<not> eligible r) rows"
  then show "notice_loop rows None = None"
    by (rule notice_loop_none)
qed

theorem row_matcher_first_hit_witness:
  "notice_loop notice_rows None = Some \<lparr>link_id = 2, link_inner_text = Inr ''D2''\<rparr>
   \<and> notice_loop other_rows None = None"
proof -
  have a: "list_all (\<lambda>r. \<not> eligible r) [document_row 1 ''D1'' ''Plan Form'']"
    by code_simp
  have b: "has_marker (document_row 2 ''D2'' ''Signed Decision Notice'')"
    by code_simp
  have c: "row_link (document_row 2 ''D2'' ''Signed Decision Notice'')
      = Inr (Some \<lparr>link_id = 2, link_inner_text = Inr ''D2''\<rparr>)"
    by (simp add: document_row_def)
  have d: "link_inner_text \<lparr>link_id = 2, link_inner_text = Inr ''D2''\<rparr> = Inr ''D2''"
    by simp
  have e: "list_all (\<lambda>r. \<not> eligible r) other_rows"
    by code_simp
  have f: "notice_rows = [document_row 1 ''D1'' ''Plan Form'']
      @ document_row 2 ''D2'' ''Signed Decision Notice'' # [document_row 3 ''D3'' ''Signed Decision Notice (draft)'']"
    by (simp add: notice_rows_def)
  from a b c d
    row_matcher_first_hit [of "[document_row 1 ''D1'' ''Plan Form'']"
      "document_row 2 ''D2'' ''Signed Decision Notice''" "\<lparr>link_id = 2, link_inner_text = Inr ''D2''\<rparr>"
      "''D2''" "[document_row 3 ''D3'' ''Signed Decision Notice (draft)'']" other_rows]
  have "notice_loop ([document_row 1 ''D1'' ''Plan Form'']
      @ document_row 2 ''D2'' ''Signed Decision Notice'' # [document_row 3 ''D3'' ''Signed Decision Notice (draft)'']) None
    = Some \<lparr>link_id = 2, link_inner_text = Inr ''D2''\<rparr>"
    by blast
  then have "notice_loop notice_rows None = Some \<lparr>link_id = 2, link_inner_text = Inr ''D2''\<rparr>"
    by (simp only: f)
  moreover from e row_matcher_first_hit [of _ _ _ _ _ other_rows]
  have "notice_loop other_rows None = None"
    by blast
  ultimately show ?thesis
    by blast
qed

text \<open>
  The claim as first stated fails where the first row containing the marker phrase has
  no link: the scan goes on and returns the link of a later row.
\<close>

theorem row_matcher_counterexample:
  "find has_marker status_rows = Some (plain_row [''Status'', ''Signed Decision Notice issued''])
   \<and> row_link (plain_row [''Status'', ''Signed Decision Notice issued'']) = Inr None
   \<and> notice_loop status_rows None = Some \<lparr>link_id = 3, link_inner_text = Inr ''D3''\<rparr>
   \<and> row_link (document_row 3 ''D3'' ''Signed Decision Notice (draft)'')
       = Inr (Some \<lparr>link_id = 3, link_inner_text = Inr ''D3''\<rparr>)"
  by code_simp

lemma documents_loop_eq:
  "documents_loop rows docs = docs @ List.map_filter listed_document rows"
  by (induction rows arbitrary: docs)
     (auto simp: listed_document_def split: sum.splits option.splits)

lemma no_match_fields:
  "success (no_match docs) = False \<and> file_path (no_match docs) = None
   \<and> error (no_match docs) = Some ''Signed Decision Notice not found''
   \<and> documents_available (no_match docs) = Some (map name docs)"
  by (simp add: no_match_def failure_def)

lemma notice_loop_no_marker:
  "list_all (\<lambda>r. \<not> has_marker r) rows \<Longrightarrow> notice_loop rows None = None"
  by (rule notice_loop_none) (simp add: list_all_iff eligible_def)

text \<open>
  Claim C5, as amended. When no scanned row contains the marker phrase, and the browser
  closes without error, the search returns a structured failure (no success, no file
  path, the error \<open>Signed Decision Notice not found\<close>) that carries, in row order, the
  names of the rows listed as documents: the rows whose text holds one of the document
  keywords and that have two cells and a name. Whatever happens inside the workflow, no
  exception reaches the caller when the browser starts and closes without error.
\<close>

theorem no_match_outcome:
  "(list_all (\<lambda>r. \<not> has_marker r) rows \<and> pd_close pg = Inr () \<longrightarrow>
      (\<exists>r. find_and_download pg app_number output_dir rows = Inr r
         \<and> success r = False \<and> file_path r = None
         \<and> error r = Some ''Signed Decision Notice not found''
         \<and> documents_available r = Some (map name (List.map_filter listed_document rows))))
   \<and> (pd_launch pg = Inr () \<and> pd_close pg = Inr () \<longrightarrow>
        (\<exists>r. download_decision_notice pg app_number output_dir debug = Inr r))"
proof (intro conjI impI)
  assume h: "list_all (\<lambda>r. \<not> has_marker r) rows \<and> pd_close pg = Inr ()"
  then have "notice_loop rows None = None"
    by (simp add: notice_loop_no_marker)
  with h have "find_and_download pg app_number output_dir rows
      = Inr (no_match (List.map_filter listed_document rows))"
    by (simp add: find_and_download_def and_then_def documents_loop_eq)
  then show "\<exists>r. find_and_download pg app_number output_dir rows = Inr r
         \<and> success r = False \<and> file_path r = None
         \<and> error r = Some ''Signed Decision Notice not found''
         \<and> documents_available r = Some (map name (List.map_filter listed_document rows))"
    by (simp add: no_match_fields)
next
  assume "pd_launch pg = Inr () \<and> pd_close pg = Inr ()"
  then show "\<exists>r. download_decision_notice pg app_number output_dir debug = Inr r"
    by (simp add: download_decision_notice_def pd_on_error_def and_then_def split: sum.splits)
qed

theorem no_match_outcome_witness:
  "(\<exists>r. find_and_download (registry_page other_rows) ''MIN/2024/216'' ''/tmp'' other_rows = Inr r
         \<and> success r = False \<and> file_path r = None
         \<and> error r = Some ''Signed Decision Notice not found''
         \<and> documents_available r = Some (map name (List.map_filter listed_document other_rows)))
   \<and> (\<exists>r. download_decision_notice (registry_page other_rows) ''MIN/2024/216'' ''/tmp'' True = Inr r)"
proof -
  have a: "list_all (\<lambda>r. \<not> has_marker r) other_rows"
    by code_simp
  have b: "pd_close (registry_page other_rows) = Inr ()" "pd_launch (registry_page other_rows) = Inr ()"
    by (simp_all add: registry_page_def)
  from a b no_match_outcome [of other_rows "registry_page other_rows" "''MIN/2024/216''" "''/tmp''" True]
  show ?thesis
    by blast
qed

text \<open>
  The claim as first stated fails on a row without a document keyword: the row
  \<open>Site photo\<close> is scanned and its name is not among the names carried.
\<close>

theorem no_match_counterexample:
  "\<not> has_marker (other_rows ! 0) \<and> \<not> has_marker (other_rows ! 1) \<and> \<not> has_marker (other_rows ! 2)
   \<and> length other_rows = 3
   \<and> row_cells (other_rows ! 1) = Inr [Inr ''D2'', Inr ''Site photo'']
   \<and> map_sum id documents_available
         (download_decision_notice (registry_page other_rows) ''MIN/2024/216'' ''/tmp'' True)
       = Inr (Some [''Plan Form''])"
  by code_simp

end
